theory Spec2Isabelle
  imports Main "HOL-Library.Multiset"
begin

section \<open>FocusFlow: a shallow embedding of the extension's logic\<close>

text \<open>
  The development follows the two scripts of the extension: the background service worker
  (class \<open>FocusFlowBackground\<close>) and the home page (class \<open>FocusFlowHome\<close>).
  JavaScript strings are modelled as \<^typ>\<open>string\<close>; the characters that matter to the
  program (URLs, JSON punctuation, white space) are ASCII code units.
\<close>

subsection \<open>String primitives of the platform\<close>

text \<open>\<open>String.prototype.startsWith\<close> and \<open>String.prototype.includes\<close>.\<close>

definition startsWith :: "string \<Rightarrow> string \<Rightarrow> bool" where
  "startsWith s p = (take (length p) s = p)"

fun str_includes :: "string \<Rightarrow> string \<Rightarrow> bool" where
  "str_includes [] t = (t = [])"
| "str_includes (c # cs) t = (startsWith (c # cs) t \<or> str_includes cs t)"

definition backslash :: char where
  "backslash = CHR 0x5C"

text \<open>
  The line terminators of ECMAScript that fit a code unit below 256: line feed and
  carriage return. The pattern character \<open>.\<close> of a regular expression without the
  \<open>s\<close> flag matches every character but these.
\<close>

definition line_terminator :: "char \<Rightarrow> bool" where
  "line_terminator c = (c = CHR 0x0A \<or> c = CHR 0x0D)"

text \<open>
  Case folding of a regular expression with the \<open>i\<close> flag (the abstract operation
  Canonicalize, without the \<open>u\<close> flag): the upper-case form of the character when that
  is a single code unit. Among the code units below 256 that maps \<open>a..z\<close> to \<open>A..Z\<close> and
  the Latin-1 letters 0xE0..0xFE (but the division sign 0xF7) to 0xC0..0xDE, and leaves
  every other character alone: the sharp s has an upper-case form of two letters, and the
  upper-case forms of the micro sign and of the y with diaeresis lie beyond 255, where they
  equal no character of this range.
\<close>

definition js_upper :: "char \<Rightarrow> char" where
  "js_upper c =
     (let n = (of_char c :: nat) in
      if 97 \<le> n \<and> n \<le> 122 \<or> 224 \<le> n \<and> n \<le> 254 \<and> n \<noteq> 247
      then char_of (n - 32) else c)"

definition canonicalize :: "bool \<Rightarrow> char \<Rightarrow> char" where
  "canonicalize ignoreCase c = (if ignoreCase then js_upper c else c)"

subsection \<open>Regular expressions: the fragment that \<open>wildcardToRegex\<close> produces\<close>

text \<open>
  A \<open>RegExp\<close> object is its source text and its \<open>i\<close> flag. The engine below handles the
  syntax that can occur in a source built by \<open>wildcardToRegex\<close>: the assertions \<open>^\<close> and
  \<open>$\<close>, a literal character, an escaped syntax character, the wildcard \<open>.\<close>, and the
  quantifier \<open>*\<close> after an atom. On any other syntax \<open>regex_parse\<close> gives \<open>None\<close>.
\<close>

record regexp =
  source :: string
  ignoreCase :: bool

datatype ratom = Lit char | Dot

datatype rterm = BOL | EOL | Atom ratom | Star ratom

text \<open>The characters of the class \<open>[.+?^${}()|[\]\\]\<close> in \<open>wildcardToRegex\<close>.\<close>

definition regex_special :: "char \<Rightarrow> bool" where
  "regex_special c = (c \<in> set (''.+?^${}()|[]'' @ [backslash]))"

fun regex_parse :: "string \<Rightarrow> rterm list option" where
  "regex_parse [] = Some []"
| "regex_parse [c] =
     (if c = CHR ''^'' then Some [BOL]
      else if c = CHR ''$'' then Some [EOL]
      else if c = CHR ''.'' then Some [Atom Dot]
      else if regex_special c \<or> c = CHR ''*'' then None
      else Some [Atom (Lit c)])"
| "regex_parse (c # d # ds) =
     (if c = CHR ''^'' then map_option ((#) BOL) (regex_parse (d # ds))
      else if c = CHR ''$'' then map_option ((#) EOL) (regex_parse (d # ds))
      else if c = backslash then
        (if regex_special d \<or> d = CHR ''*''
         then (case ds of
                 [] \<Rightarrow> Some [Atom (Lit d)]
               | e # es \<Rightarrow>
                   if e = CHR ''*'' then map_option ((#) (Star (Lit d))) (regex_parse es)
                   else map_option ((#) (Atom (Lit d))) (regex_parse (e # es)))
         else None)
      else if regex_special c \<and> c \<noteq> CHR ''.'' \<or> c = CHR ''*'' then None
      else (let a = (if c = CHR ''.'' then Dot else Lit c) in
            if d = CHR ''*'' then map_option ((#) (Star a)) (regex_parse ds)
            else map_option ((#) (Atom a)) (regex_parse (d # ds))))"

definition atom_matches :: "bool \<Rightarrow> ratom \<Rightarrow> char \<Rightarrow> bool" where
  "atom_matches ic a c =
     (case a of
        Lit d \<Rightarrow> canonicalize ic d = canonicalize ic c
      | Dot \<Rightarrow> \<not> line_terminator c)"

text \<open>
  A backtracking matcher: \<open>match_here ic at_start ts s\<close> holds when the terms \<open>ts\<close>
  match a prefix of the remaining input \<open>s\<close>; \<open>at_start\<close> says that no input has been
  consumed before \<open>s\<close>. Without the \<open>m\<close> flag \<open>^\<close> holds at the start of the input only and
  \<open>$\<close> at its end only.
\<close>

fun match_here :: "bool \<Rightarrow> bool \<Rightarrow> rterm list \<Rightarrow> string \<Rightarrow> bool" where
  "match_here ic st [] s = True"
| "match_here ic st (BOL # ts) s = (st \<and> match_here ic st ts s)"
| "match_here ic st (EOL # ts) s = (s = [] \<and> match_here ic st ts s)"
| "match_here ic st (Atom a # ts) s =
     (case s of [] \<Rightarrow> False | c # cs \<Rightarrow> atom_matches ic a c \<and> match_here ic False ts cs)"
| "match_here ic st (Star a # ts) s =
     (match_here ic st ts s \<or>
      (case s of [] \<Rightarrow> False
       | c # cs \<Rightarrow> atom_matches ic a c \<and> match_here ic False (Star a # ts) cs))"

text \<open>
  \<open>RegExp.prototype.test\<close> for a regular expression without the \<open>g\<close> and \<open>y\<close> flags: a
  match may start at any index of the input. \<open>None\<close> stands for the \<open>SyntaxError\<close> that
  \<open>new RegExp\<close> throws (or for a source outside the fragment).
\<close>

definition regex_test :: "regexp \<Rightarrow> string \<Rightarrow> bool option" where
  "regex_test r s =
     map_option
       (\<lambda>ts. list_ex (\<lambda>i. match_here (ignoreCase r) (i = 0) ts (drop i s)) [0..<Suc (length s)])
       (regex_parse (source r))"

subsection \<open>The exclusion matcher (background script)\<close>

text \<open>
  \<open>wildcard.replace(/[.+?^${}()|[\]\\]/g, "\\$&")\<close>: a backslash before every character of
  the class.
\<close>

definition escape_specials :: "string \<Rightarrow> string" where
  "escape_specials w = concat (map (\<lambda>c. if regex_special c then [backslash, c] else [c]) w)"

text \<open>\<open>escaped.replace(/\*/g, ".*")\<close>.\<close>

definition star_to_dotstar :: "string \<Rightarrow> string" where
  "star_to_dotstar e = concat (map (\<lambda>c. if c = CHR ''*'' then ''.*'' else [c]) e)"

definition wildcardToRegex :: "string \<Rightarrow> regexp" where
  "wildcardToRegex wildcard =
     (let escaped = escape_specials wildcard;
          regexString = star_to_dotstar escaped
      in \<lparr>source = ''^'' @ regexString @ ''$'', ignoreCase = True\<rparr>)"

text \<open>
  The loop of \<open>isUrlBlockable\<close> over the exclusion list: the first pattern that matches
  returns \<open>false\<close>; when none does the function returns \<open>true\<close>. \<open>None\<close>: a pattern failed
  to compile and the exception left the function.
\<close>

fun exclusion_loop :: "string \<Rightarrow> string list \<Rightarrow> bool option" where
  "exclusion_loop url [] = Some True"
| "exclusion_loop url (wildcard # rest) =
     (case regex_test (wildcardToRegex wildcard) url of
        None \<Rightarrow> None
      | Some True \<Rightarrow> Some False
      | Some False \<Rightarrow> exclusion_loop url rest)"

text \<open>
  \<open>isUrlBlockable\<close>; \<open>runtime_id\<close> is \<open>chrome.runtime.id\<close>, the identifier of the
  extension (32 characters, given by the browser).
\<close>

definition isUrlBlockable :: "string \<Rightarrow> string \<Rightarrow> string list \<Rightarrow> bool option" where
  "isUrlBlockable runtime_id url excludedUrls =
     (let isChromeInternal = startsWith url ''chrome://'';
          isExtensionPage = str_includes url runtime_id;
          isNewTabPage = (url = ''chrome://newtab/'');
          isWebPage = (startsWith url ''http://'' \<or> startsWith url ''https://'')
      in if isChromeInternal \<or> isExtensionPage \<or> isNewTabPage \<or> \<not> isWebPage then Some False
         else exclusion_loop url excludedUrls)"

text \<open>
  The glob semantics in the words of the specification, to compare with the code: every
  pattern character stands for itself, except \<open>*\<close>, which matches any sequence of
  characters; the pattern covers the whole string; letter case is ignored. Two characters
  are the same letter up to case when their lower-case forms agree (\<open>A..Z\<close> and the
  Latin-1 capitals 0xC0..0xDE but the multiplication sign 0xD7 have one).
\<close>

definition to_lower :: "char \<Rightarrow> char" where
  "to_lower c =
     (let n = (of_char c :: nat) in
      if 65 \<le> n \<and> n \<le> 90 \<or> 192 \<le> n \<and> n \<le> 222 \<and> n \<noteq> 215
      then char_of (n + 32) else c)"

fun glob_matches :: "string \<Rightarrow> string \<Rightarrow> bool" where
  "glob_matches [] s = (s = [])"
| "glob_matches (p # ps) s =
     (if p = CHR ''*'' then list_ex (\<lambda>k. glob_matches ps (drop k s)) [0..<Suc (length s)]
      else (case s of [] \<Rightarrow> False | c # cs \<Rightarrow> to_lower p = to_lower c \<and> glob_matches ps cs))"

text \<open>
  The pages that are never blocked, in the words of the specification: an internal page
  of the browser, a page of the extension itself (its URLs are those under
  \<open>chrome-extension://\<close> followed by the identifier of the extension), the new-tab page,
  and whatever is not an http or https URL.
\<close>

definition spec_never_blockable :: "string \<Rightarrow> string \<Rightarrow> bool" where
  "spec_never_blockable runtime_id u =
     (startsWith u ''chrome://'' \<or>
      startsWith u (''chrome-extension://'' @ runtime_id) \<or>
      u = ''chrome://newtab/'' \<or>
      \<not> (startsWith u ''http://'' \<or> startsWith u ''https://''))"

text \<open>
  The condition of the first \<open>if\<close> of \<open>isUrlBlockable\<close>, as the code has it: the test for
  a page of the extension is \<open>url.includes(chrome.runtime.id)\<close>.
\<close>

definition returns_false_early :: "string \<Rightarrow> string \<Rightarrow> bool" where
  "returns_false_early runtime_id url =
     (startsWith url ''chrome://'' \<or> str_includes url runtime_id \<or>
      url = ''chrome://newtab/'' \<or>
      \<not> (startsWith url ''http://'' \<or> startsWith url ''https://''))"

text \<open>
  The term that the regular expression of a pattern holds for one pattern character: the
  wildcard becomes \<open>.*\<close>, any other character a (possibly escaped) literal.
\<close>

definition glob_term :: "char \<Rightarrow> rterm" where
  "glob_term c = (if c = CHR ''*'' then Star Dot else Atom (Lit c))"

subsection \<open>Values, the platform and the state of the home page\<close>

text \<open>
  The values that \<open>chrome.storage.local\<close> and the log file hold are JSON values. An
  object is the list of its properties in enumeration order; numbers are the integers the
  program computes with (minutes, milliseconds). \<open>undefined\<close> is the absence of a value:
  \<open>None\<close> of type \<^typ>\<open>'a option\<close>.
\<close>

datatype json =
    JNull
  | JBool bool
  | JNum int
  | JStr string
  | JArr "json list"
  | JObj "(string \<times> json) list"

datatype js_error =
    AbortError
  | NotFoundError
  | NotAllowedError
  | SyntaxError
  | TypeError
  | RangeError
  | Error string

datatype permission = Granted | Prompt | Denied

datatype access_mode = Read | ReadWrite

text \<open>
  What the page does not define itself: built-in operations of the JavaScript platform and
  the answers of the user to the dialogs of the browser.
  \<^item> \<open>newDate v\<close> is \<open>new Date(v).getTime()\<close>, \<open>None\<close> for \<open>NaN\<close> (an invalid date);
  \<^item> \<open>toISOString t\<close> is \<open>new Date(t).toISOString()\<close> for a valid time value \<open>t\<close>;
  \<^item> \<open>json_stringify\<close> and \<open>json_parse\<close> are \<open>JSON.stringify\<close> and \<open>JSON.parse\<close>
    (\<open>None\<close>: a \<open>SyntaxError\<close>);
  \<^item> \<open>toNumber\<close> and \<open>toStr\<close> are the conversions of a string, array or object to a
    number (\<open>None\<close> for \<open>NaN\<close>) and of a value to a string;
  \<^item> \<open>pickFile\<close>: the user chooses a file in \<open>showSaveFilePicker\<close> (otherwise the
    dialog is dismissed and the call rejects with an \<open>AbortError\<close>);
  \<^item> \<open>grantPermission\<close>: the user grants what \<open>requestPermission\<close> asks for.
\<close>

record env =
  newDate :: "json option \<Rightarrow> int option"
  toISOString :: "int \<Rightarrow> string"
  json_stringify :: "json \<Rightarrow> string"
  json_parse :: "string \<Rightarrow> json option"
  toNumber :: "json \<Rightarrow> int option"
  toStr :: "json \<Rightarrow> string"
  pickFile :: bool
  grantPermission :: bool

text \<open>
  Everything outside one page instance: the storage area (shared with the background
  script and the other tabs), the record of the calls made to it, the messages sent to the
  background script, the live interval timers with the end time their callback has
  captured, the log file behind the file handle with its permissions, the slot of
  IndexedDB that keeps the handle, what the background script did to tabs and
  notifications, and the console.
\<close>

record world =
  storage :: "string \<Rightarrow> json option"
  set_calls :: "(string \<times> json) list list"
  sent_messages :: "json list"
  timers :: "nat \<Rightarrow> int option"
  next_timer_id :: nat
  log_file :: "string option"
  perm_read :: permission
  perm_readwrite :: permission
  idb_handle :: bool
  redirected_tabs :: "nat list"
  notifications :: "string list"
  console_errors :: "(string \<times> js_error option) list"

text \<open>What the log container of the page shows.\<close>

datatype log_view =
    Blank
  | Message string
  | GrantPermissionPrompt
  | Rendered "json list"

text \<open>
  One instance of \<open>FocusFlowHome\<close> with the parts of its document that it reads or
  writes. The two debounced writers of \<open>initializeState\<close> are the texts their timers
  currently hold (\<open>None\<close>: no timer armed).
\<close>

record home =
  summaryInput :: string
  noteInput :: string
  wordCounter :: string
  wordCounterColor :: string
  submitLogDisabled :: bool
  startHidden :: bool
  runningHidden :: bool
  endHidden :: bool
  summaryHidden :: bool
  timerDisplay :: string
  errorHidden :: bool
  errorMessage :: string
  logContainer :: log_view
  countdownInterval :: "nat option"
  fileHandle :: bool
  pendingSummarySync :: "string option"
  pendingNoteSync :: "string option"

subsection \<open>More string primitives\<close>

text \<open>
  White space as \<open>String.prototype.trim\<close> and the class \<open>\s\<close> of a regular expression
  see it (the same set of characters): tab, line feed, vertical tab, form feed, carriage
  return, space and the no-break space.
\<close>

definition js_space :: "char \<Rightarrow> bool" where
  "js_space c = (of_char c \<in> {9, 10, 11, 12, 13, 32, 160 :: nat})"

definition trim :: "string \<Rightarrow> string" where
  "trim s = rev (dropWhile js_space (rev (dropWhile js_space s)))"

text \<open>
  \<open>s.split(/\s+/)\<close>: the pieces of \<open>s\<close> between the maximal runs of white space. A
  string without white space is its own single piece, the empty string included.
\<close>

function split_ws :: "string \<Rightarrow> string list" where
  "split_ws s =
     (case dropWhile (\<lambda>c. \<not> js_space c) s of
        [] \<Rightarrow> [s]
      | sp # rest \<Rightarrow> takeWhile (\<lambda>c. \<not> js_space c) s # split_ws (dropWhile js_space rest))"
  by pat_completeness auto
termination
proof (relation "measure length")
  show "wf (measure length)" by simp
next
  fix s :: string and sp rest
  assume a: "dropWhile (\<lambda>c. \<not> js_space c) s = sp # rest"
  have "length (dropWhile js_space rest) \<le> length rest" by (rule length_dropWhile_le)
  moreover have "length (sp # rest) \<le> length s"
    using length_dropWhile_le[of "\<lambda>c. \<not> js_space c" s] a by simp
  ultimately show "(dropWhile js_space rest, s) \<in> measure length" by simp
qed

declare split_ws.simps [simp del]

text \<open>\<open>s.split("\n")\<close>.\<close>

fun split_lines_acc :: "string \<Rightarrow> string \<Rightarrow> string list" where
  "split_lines_acc acc [] = [rev acc]"
| "split_lines_acc acc (c # cs) =
     (if c = CHR 0x0A then rev acc # split_lines_acc [] cs else split_lines_acc (c # acc) cs)"

definition split_lines :: "string \<Rightarrow> string list" where
  "split_lines s = split_lines_acc [] s"

text \<open>\<open>lines.join("\n")\<close>.\<close>

fun join_lines :: "string list \<Rightarrow> string" where
  "join_lines [] = []"
| "join_lines [l] = l"
| "join_lines (l # m # ls) = l @ [CHR 0x0A] @ join_lines (m # ls)"

text \<open>The decimal digits of a number, for \<open>String(n)\<close> and template literals.\<close>

definition digit_char :: "nat \<Rightarrow> char" where
  "digit_char d = char_of (48 + d)"

function show_nat :: "nat \<Rightarrow> string" where
  "show_nat n = (if n < 10 then [digit_char n] else show_nat (n div 10) @ [digit_char (n mod 10)])"
  by pat_completeness auto
termination
  by (relation "measure id") auto

declare show_nat.simps [simp del]

text \<open>\<open>String(n).padStart(2, "0")\<close>.\<close>

definition pad2 :: "nat \<Rightarrow> string" where
  "pad2 n = (let d = show_nat n in if length d < 2 then replicate (2 - length d) (CHR ''0'') @ d else d)"

subsection \<open>The summary and its word-count gate\<close>

definition MIN_SUMMARY_WORDS :: nat where
  "MIN_SUMMARY_WORDS = 50"

text \<open>\<open>text.trim().split(/\s+/).filter(Boolean)\<close>: the empty pieces are dropped.\<close>

definition summary_words :: "string \<Rightarrow> string list" where
  "summary_words text = filter (\<lambda>word. word \<noteq> []) (split_ws (trim text))"

text \<open>
  \<open>validateSummary\<close>: arms the debounced writer with the text, shows the count and
  enables or disables the submit button.
\<close>

definition validateSummary :: "home \<Rightarrow> home" where
  "validateSummary h =
     (let text = summaryInput h;
          h1 = h\<lparr>pendingSummarySync := Some text\<rparr>;
          words = summary_words text;
          wordCount = length words;
          h2 = h1\<lparr>wordCounter := show_nat wordCount @ '' / 50 words''\<rparr>
      in if wordCount \<ge> MIN_SUMMARY_WORDS
         then h2\<lparr>submitLogDisabled := False, wordCounterColor := ''var(--success-color)''\<rparr>
         else h2\<lparr>submitLogDisabled := True, wordCounterColor := ''var(--secondary-text)''\<rparr>)"

text \<open>
  The white-space delimited tokens of a text, in the words of the specification: the
  maximal runs of characters that are not white space.
\<close>

function ws_tokens :: "string \<Rightarrow> string list" where
  "ws_tokens [] = []"
| "ws_tokens (c # cs) =
     (if js_space c then ws_tokens cs
      else (c # takeWhile (\<lambda>c. \<not> js_space c) cs) # ws_tokens (dropWhile (\<lambda>c. \<not> js_space c) cs))"
  by pat_completeness auto
termination
proof (relation "measure length")
  show "wf (measure length)" by simp
next
  fix c :: char and cs :: string
  show "(cs, c # cs) \<in> measure length" by simp
next
  fix c :: char and cs :: string
  have "length (dropWhile (\<lambda>c. \<not> js_space c) cs) \<le> length cs" by (rule length_dropWhile_le)
  then show "(dropWhile (\<lambda>c. \<not> js_space c) cs, c # cs) \<in> measure length" by simp
qed

subsection \<open>The storage area\<close>

text \<open>The keys of \<open>STORAGE_KEYS\<close>, the phases of \<open>TIMER_STATE\<close> and the key of the exclusion list.\<close>

abbreviation K_TIMER_STATE :: string where "K_TIMER_STATE \<equiv> ''timerState''"
abbreviation K_END_TIME :: string where "K_END_TIME \<equiv> ''endTime''"
abbreviation K_DURATION :: string where "K_DURATION \<equiv> ''duration''"
abbreviation K_SESSION_ID :: string where "K_SESSION_ID \<equiv> ''sessionId''"
abbreviation K_CURRENT_SUMMARY :: string where "K_CURRENT_SUMMARY \<equiv> ''currentSummary''"
abbreviation K_CURRENT_NOTE :: string where "K_CURRENT_NOTE \<equiv> ''currentNote''"
abbreviation K_EXCLUDED_URLS :: string where "K_EXCLUDED_URLS \<equiv> ''excludedUrls''"

abbreviation START :: json where "START \<equiv> JStr ''start''"
abbreviation RUNNING :: json where "RUNNING \<equiv> JStr ''running''"
abbreviation END :: json where "END \<equiv> JStr ''end''"

text \<open>
  \<open>chrome.storage.local.set(items)\<close> stores every item of the object and leaves the other
  keys alone; the call is recorded. \<open>chrome.storage.local.get(keys)\<close> gives the stored
  values of the keys asked for and nothing else.
\<close>

definition storage_set :: "(string \<times> json) list \<Rightarrow> world \<Rightarrow> world" where
  "storage_set items w =
     w\<lparr>storage := fold (\<lambda>kv m. m(fst kv := Some (snd kv))) items (storage w),
       set_calls := set_calls w @ [items]\<rparr>"

definition storage_get :: "string list \<Rightarrow> world \<Rightarrow> string \<Rightarrow> json option" where
  "storage_get keys w = (\<lambda>k. if k \<in> set keys then storage w k else None)"

text \<open>Truthiness, and \<open>v || d\<close>.\<close>

fun truthy :: "json option \<Rightarrow> bool" where
  "truthy None = False"
| "truthy (Some JNull) = False"
| "truthy (Some (JBool b)) = b"
| "truthy (Some (JNum n)) = (n \<noteq> 0)"
| "truthy (Some (JStr s)) = (s \<noteq> [])"
| "truthy (Some (JArr xs)) = True"
| "truthy (Some (JObj kvs)) = True"

definition js_or :: "json option \<Rightarrow> json \<Rightarrow> json" where
  "js_or v d = (case v of None \<Rightarrow> d | Some x \<Rightarrow> if truthy (Some x) then x else d)"

text \<open>Assigning a value to \<open>input.value\<close> stores its string.\<close>

definition dom_string :: "env \<Rightarrow> json \<Rightarrow> string" where
  "dom_string E v = (case v of JStr s \<Rightarrow> s | _ \<Rightarrow> toStr E v)"

text \<open>The numeric value of an operand of \<open>*\<close> (\<open>None\<close>: \<open>NaN\<close>).\<close>

definition to_number :: "env \<Rightarrow> json option \<Rightarrow> int option" where
  "to_number E v =
     (case v of
        None \<Rightarrow> None
      | Some JNull \<Rightarrow> Some 0
      | Some (JBool b) \<Rightarrow> Some (if b then 1 else 0)
      | Some (JNum n) \<Rightarrow> Some n
      | Some x \<Rightarrow> toNumber E x)"

text \<open>
  The time value of \<open>new Date(t)\<close> for a number \<open>t\<close>: beyond 8.64e15 milliseconds from the
  epoch the date is invalid.
\<close>

definition timeClip :: "int \<Rightarrow> int option" where
  "timeClip t = (if \<bar>t\<bar> \<le> 8640000000000000 then Some t else None)"

text \<open>Reading a property of a value that is not \<open>null\<close>: only an object has the properties
  the program asks for.\<close>

fun get_prop :: "json \<Rightarrow> string \<Rightarrow> json option" where
  "get_prop (JObj kvs) k = map_of kvs k"
| "get_prop v k = None"

text \<open>
  An object literal: a property whose value is \<open>undefined\<close> leaves no trace in the JSON
  text, so it is left out.
\<close>

definition object_literal :: "(string \<times> json option) list \<Rightarrow> json" where
  "object_literal props =
     JObj (concat (map (\<lambda>kv. case snd kv of None \<Rightarrow> [] | Some v \<Rightarrow> [(fst kv, v)]) props))"

subsection \<open>The log file and its handle\<close>

text \<open>\<open>console.error(label, err)\<close>.\<close>

definition log_error :: "string \<Rightarrow> js_error option \<Rightarrow> world \<Rightarrow> world" where
  "log_error label err w = w\<lparr>console_errors := console_errors w @ [(label, err)]\<rparr>"

text \<open>
  \<open>queryPermission\<close>: who may write may read. \<open>requestPermission\<close> asks the user, and the
  answer stays. \<open>getFile().text()\<close> needs the permission to read and the file to be there;
  \<open>createWritable\<close>, \<open>write\<close> and \<open>close\<close> need the permission to write and replace the
  content.
\<close>

definition queryPermission :: "access_mode \<Rightarrow> world \<Rightarrow> permission" where
  "queryPermission m w =
     (case m of
        ReadWrite \<Rightarrow> perm_readwrite w
      | Read \<Rightarrow> if perm_readwrite w = Granted then Granted else perm_read w)"

definition requestPermission :: "env \<Rightarrow> access_mode \<Rightarrow> world \<Rightarrow> permission \<times> world" where
  "requestPermission E m w =
     (let p = (if grantPermission E then Granted else Denied)
      in (p, case m of ReadWrite \<Rightarrow> w\<lparr>perm_readwrite := p\<rparr> | Read \<Rightarrow> w\<lparr>perm_read := p\<rparr>))"

definition file_text :: "world \<Rightarrow> js_error + string" where
  "file_text w =
     (if queryPermission Read w \<noteq> Granted then Inl NotAllowedError
      else case log_file w of None \<Rightarrow> Inl NotFoundError | Some content \<Rightarrow> Inr content)"

definition file_write :: "string \<Rightarrow> world \<Rightarrow> js_error + world" where
  "file_write content w =
     (if queryPermission ReadWrite w \<noteq> Granted then Inl NotAllowedError
      else Inr (w\<lparr>log_file := Some content\<rparr>))"

text \<open>
  \<open>showSaveFilePicker\<close>: the file the user picks exists afterwards (empty when it is new)
  and may be read and written.
\<close>

definition showSaveFilePicker :: "env \<Rightarrow> world \<Rightarrow> js_error + world" where
  "showSaveFilePicker E w =
     (if pickFile E
      then Inr (w\<lparr>log_file := Some (case log_file w of None \<Rightarrow> [] | Some c \<Rightarrow> c),
                 perm_read := Granted, perm_readwrite := Granted\<rparr>)
      else Inl AbortError)"

definition error_name :: "js_error \<Rightarrow> string" where
  "error_name e =
     (case e of
        AbortError \<Rightarrow> ''AbortError''
      | NotFoundError \<Rightarrow> ''NotFoundError''
      | NotAllowedError \<Rightarrow> ''NotAllowedError''
      | SyntaxError \<Rightarrow> ''SyntaxError''
      | TypeError \<Rightarrow> ''TypeError''
      | RangeError \<Rightarrow> ''RangeError''
      | Error msg \<Rightarrow> ''Error'')"

subsection \<open>Showing errors and logs\<close>

definition showError :: "string \<Rightarrow> home \<Rightarrow> home" where
  "showError message h = h\<lparr>errorMessage := message, errorHidden := False\<rparr>"

definition hideError :: "home \<Rightarrow> home" where
  "hideError h = h\<lparr>errorHidden := True\<rparr>"

text \<open>\<open>content.trim().split("\n").map((line) => JSON.parse(line))\<close>; \<open>None\<close> when a line
  does not parse.\<close>

definition parse_lines :: "env \<Rightarrow> string \<Rightarrow> json list option" where
  "parse_lines E content = those (map (json_parse E) (split_lines (trim content)))"

text \<open>
  The comparison function of \<open>loadLogs\<close>,
  \<open>(a, b) => new Date(b.end_time) - new Date(a.end_time)\<close>; the \<open>NaN\<close> of an invalid date
  counts as zero in \<open>Array.prototype.sort\<close>.
\<close>

definition compare_end_time :: "env \<Rightarrow> json \<Rightarrow> json \<Rightarrow> int" where
  "compare_end_time E a b =
     (case (newDate E (get_prop b ''end_time''), newDate E (get_prop a ''end_time'')) of
        (Some tb, Some ta) \<Rightarrow> tb - ta
      | _ \<Rightarrow> 0)"

text \<open>
  \<open>Array.prototype.sort\<close> is stable: an element goes before the first one that the
  comparison function does not put before it. For a consistent comparison function (here:
  every entry has a valid \<open>end_time\<close>) that is the one order the language defines. When
  the function is not consistent (a \<open>NaN\<close> from an invalid date counts as zero and breaks
  transitivity) the language leaves the order to the engine; the insertion below is then
  one admissible order and need not be the engine's.
\<close>

fun insert_sorted :: "('a \<Rightarrow> 'a \<Rightarrow> int) \<Rightarrow> 'a \<Rightarrow> 'a list \<Rightarrow> 'a list" where
  "insert_sorted cmp x [] = [x]"
| "insert_sorted cmp x (y # ys) =
     (if cmp x y \<le> 0 then x # y # ys else y # insert_sorted cmp x ys)"

definition js_sort :: "('a \<Rightarrow> 'a \<Rightarrow> int) \<Rightarrow> 'a list \<Rightarrow> 'a list" where
  "js_sort cmp xs = foldr (insert_sorted cmp) xs []"

text \<open>
  The body of the \<open>try\<close> of \<open>loadLogs\<close> once the permission to read is there: \<open>Inr None\<close>
  for a file that is blank, otherwise the entries as \<open>renderLogs\<close> receives them. An entry
  that is \<open>null\<close> makes the comparison function or \<open>renderLogs\<close> read a property of
  \<open>null\<close>, a \<open>TypeError\<close>.
\<close>

definition read_entries :: "env \<Rightarrow> world \<Rightarrow> js_error + json list option" where
  "read_entries E w =
     (case file_text w of
        Inl err \<Rightarrow> Inl err
      | Inr content \<Rightarrow>
          if trim content = [] then Inr None
          else (case parse_lines E content of
                  None \<Rightarrow> Inl SyntaxError
                | Some logEntries \<Rightarrow>
                    if JNull \<in> set logEntries then Inl TypeError
                    else Inr (Some (js_sort (compare_end_time E) logEntries))))"

definition loadLogs :: "env \<Rightarrow> home \<times> world \<Rightarrow> home \<times> world" where
  "loadLogs E hw =
     (let h = hideError ((fst hw)\<lparr>logContainer := Blank\<rparr>); w = snd hw in
      if \<not> fileHandle h
      then (h\<lparr>logContainer :=
                Message ''Your session logs will appear here once you save your first session.''\<rparr>, w)
      else (case queryPermission Read w of
              Granted \<Rightarrow>
                (case read_entries E w of
                   Inl err \<Rightarrow>
                     (showError ''Could not load the log file. It may have been moved or deleted.'' h,
                      log_error ''Error loading logs:'' (Some err) w)
                 | Inr None \<Rightarrow> (h\<lparr>logContainer := Message ''No entries logged yet.''\<rparr>, w)
                 | Inr (Some logEntries) \<Rightarrow> (h\<lparr>logContainer := Rendered logEntries\<rparr>, w))
            | Prompt \<Rightarrow> (h\<lparr>logContainer := GrantPermissionPrompt\<rparr>, w)
            | Denied \<Rightarrow> (showError ''Permission to read the log file has been denied.'' h, w)))"

text \<open>The click on the button that \<open>loadLogs\<close> shows when the permission must be asked.\<close>

definition grantPermissionClick :: "env \<Rightarrow> home \<times> world \<Rightarrow> home \<times> world" where
  "grantPermissionClick E hw =
     (case requestPermission E Read (snd hw) of
        (Granted, w) \<Rightarrow> loadLogs E (fst hw, w)
      | (_, w) \<Rightarrow> (showError ''Permission to read the log file was denied.'' (fst hw), w))"

text \<open>
  \<open>appendLogToFile\<close>. Without a handle the user is asked for a file and the handle is
  kept in IndexedDB; without the permission to write the user is asked for it, and a
  refusal forgets the handle. The entry goes after the old content, behind a line feed
  when there is old content. Whatever is thrown on the way is caught: an error is shown
  unless the user dismissed the file dialog, and the handle of the instance is dropped.
\<close>

definition append_catch :: "js_error \<Rightarrow> home \<times> world \<Rightarrow> home \<times> world" where
  "append_catch err hw =
     (let h = fst hw; w = log_error ''Error saving log:'' (Some err) (snd hw);
          h1 = (if error_name err \<noteq> ''AbortError''
                then showError ''Could not save the log file. Please try again.'' h else h)
      in (h1\<lparr>fileHandle := False\<rparr>, w))"

definition append_write :: "env \<Rightarrow> json \<Rightarrow> home \<times> world \<Rightarrow> home \<times> world" where
  "append_write E logEntry hw =
     (case file_text (snd hw) of
        Inl err \<Rightarrow> append_catch err hw
      | Inr oldContent \<Rightarrow>
          (let newContent =
                 oldContent @ (if length oldContent > 0 then [CHR 0x0A] else []) @
                 json_stringify E logEntry
           in case file_write newContent (snd hw) of
                Inl err \<Rightarrow> append_catch err hw
              | Inr w \<Rightarrow> (fst hw, w)))"

definition appendLogToFile :: "env \<Rightarrow> json \<Rightarrow> home \<times> world \<Rightarrow> home \<times> world" where
  "appendLogToFile E logEntry hw =
     (case (if fileHandle (fst hw) then Inr hw
            else (case showSaveFilePicker E (snd hw) of
                    Inl err \<Rightarrow> Inl err
                  | Inr w \<Rightarrow> Inr ((fst hw)\<lparr>fileHandle := True\<rparr>, w\<lparr>idb_handle := True\<rparr>))) of
        Inl err \<Rightarrow> append_catch err hw
      | Inr hw1 \<Rightarrow>
          if queryPermission ReadWrite (snd hw1) \<noteq> Granted
          then (case requestPermission E ReadWrite (snd hw1) of
                  (Granted, w) \<Rightarrow> append_write E logEntry (fst hw1, w)
                | (_, w) \<Rightarrow>
                    ((fst hw1)\<lparr>fileHandle := False\<rparr>,
                     (log_error ''File access permission was not granted.'' None w)\<lparr>idb_handle := False\<rparr>))
          else append_write E logEntry hw1)"

subsection \<open>The timer controller\<close>

text \<open>\<open>setInterval\<close> and \<open>clearInterval\<close>; the handles are the positive numbers.\<close>

definition setInterval :: "int \<Rightarrow> world \<Rightarrow> nat \<times> world" where
  "setInterval endTime w =
     (let i = Suc (next_timer_id w)
      in (i, w\<lparr>timers := (timers w)(i \<mapsto> endTime), next_timer_id := i\<rparr>))"

definition clearInterval :: "nat option \<Rightarrow> world \<Rightarrow> world" where
  "clearInterval handle w =
     (case handle of
        None \<Rightarrow> w
      | Some i \<Rightarrow> w\<lparr>timers := (timers w)(i := None)\<rparr>)"

text \<open>
  \<open>updateUI\<close>, \<open>startCountdown\<close> and \<open>resetToStartState\<close> call each other: the first
  starts the countdown in phase RUNNING, the second resets on an end time that is no
  date, the third redraws after its write. A callback of the storage area runs when the
  code that registered it has returned; in each of these functions the registration is the
  last statement, so the callback is run in its place. \<open>updateUI\<close> asks the storage for
  the phase, the end time and the summary only, so the note it reads is \<open>undefined\<close>.
\<close>

function updateUI :: "env \<Rightarrow> home \<times> world \<Rightarrow> home \<times> world"
  and startCountdown :: "env \<Rightarrow> json option \<Rightarrow> home \<times> world \<Rightarrow> home \<times> world"
  and resetToStartState :: "env \<Rightarrow> home \<times> world \<Rightarrow> home \<times> world"
where
  "updateUI E hw =
     (let result = storage_get [K_TIMER_STATE, K_END_TIME, K_CURRENT_SUMMARY] (snd hw);
          state = js_or (result K_TIMER_STATE) START;
          h1 = (fst hw)\<lparr>noteInput := dom_string E (js_or (result K_CURRENT_NOTE) (JStr ''''))\<rparr>;
          h2 = h1\<lparr>startHidden := True, runningHidden := True, endHidden := True,
                   summaryHidden := True\<rparr>
      in if state = START then (h2\<lparr>startHidden := False\<rparr>, snd hw)
         else if state = RUNNING
           then startCountdown E (result K_END_TIME) (h2\<lparr>runningHidden := False\<rparr>, snd hw)
         else if state = END
           then (validateSummary
                   (h2\<lparr>endHidden := False, summaryHidden := False,
                       summaryInput := dom_string E (js_or (result K_CURRENT_SUMMARY) (JStr ''''))\<rparr>),
                 snd hw)
         else (h2, snd hw))"
| "startCountdown E endTimeISO hw =
     (case newDate E endTimeISO of
        None \<Rightarrow>
          resetToStartState E
            (showError ''An error occurred with the timer. Please start a new session.'' (fst hw),
             log_error ''Invalid endTime received from storage:'' None (snd hw))
      | Some endTime \<Rightarrow>
          (let w1 = clearInterval (countdownInterval (fst hw)) (snd hw);
               iw = setInterval endTime w1
           in ((fst hw)\<lparr>countdownInterval := Some (fst iw)\<rparr>, snd iw)))"
| "resetToStartState E hw =
     (let h1 = validateSummary ((fst hw)\<lparr>summaryInput := ''''\<rparr>);
          w1 = storage_set
                 [(K_TIMER_STATE, START), (K_END_TIME, JNull), (K_DURATION, JNum 0),
                  (K_SESSION_ID, JNull), (K_CURRENT_SUMMARY, JStr '''')] (snd hw)
      in loadLogs E (updateUI E (h1, w1)))"
  by pat_completeness auto

termination
  apply (relation "measure (\<lambda>x. case x of
            Inl (E, hw) \<Rightarrow> (if js_or (storage (snd hw) K_TIMER_STATE) START = RUNNING then 3 else 0)
          | Inr (Inl _) \<Rightarrow> 2
          | Inr (Inr _) \<Rightarrow> 1)")
     apply simp
    apply (simp add: storage_get_def)
   apply simp
  apply (simp add: storage_set_def js_or_def)
  done

declare updateUI.simps [simp del] startCountdown.simps [simp del] resetToStartState.simps [simp del]

text \<open>
  The callback of the interval \<open>i\<close> that \<open>startCountdown\<close> registered, run at the time
  \<open>now\<close> in the instance that owns it; an interval that has been cleared does not fire.
\<close>

definition tick :: "env \<Rightarrow> nat \<Rightarrow> int \<Rightarrow> home \<times> world \<Rightarrow> home \<times> world" where
  "tick E i now hw =
     (case timers (snd hw) i of
        None \<Rightarrow> hw
      | Some endTime \<Rightarrow>
          (let timeLeft = endTime - now in
           if timeLeft \<le> 0
           then (let w1 = clearInterval (countdownInterval (fst hw)) (snd hw);
                     h1 = (fst hw)\<lparr>timerDisplay := ''00:00''\<rparr>;
                     w2 = storage_set [(K_TIMER_STATE, END)] w1;
                     w3 = w2\<lparr>sent_messages :=
                              sent_messages w2 @ [JObj [(''type'', JStr ''timerFinished'')]]\<rparr>
                 in updateUI E (h1, w3))
           else (let minutes = (timeLeft mod (1000 * 60 * 60)) div (1000 * 60);
                     seconds = (timeLeft mod (1000 * 60)) div 1000
                 in ((fst hw)\<lparr>timerDisplay := pad2 (nat minutes) @ '':'' @ pad2 (nat seconds)\<rparr>,
                     snd hw))))"

text \<open>
  \<open>startTimer\<close>; \<open>now\<close> is the clock and \<open>uuid\<close> what \<open>crypto.randomUUID()\<close> returns.
  \<open>toISOString\<close> throws a \<open>RangeError\<close> on an invalid date, before anything is stored.
\<close>

definition startTimer ::
  "env \<Rightarrow> int \<Rightarrow> string \<Rightarrow> int \<Rightarrow> home \<times> world \<Rightarrow> js_error + home \<times> world" where
  "startTimer E now uuid durationInMinutes hw =
     (case timeClip (now + durationInMinutes * 60 * 1000) of
        None \<Rightarrow> Inl RangeError
      | Some endTime \<Rightarrow>
          Inr (updateUI E
                 (fst hw,
                  storage_set
                    [(K_TIMER_STATE, RUNNING), (K_END_TIME, JStr (toISOString E endTime)),
                     (K_DURATION, JNum durationInMinutes), (K_SESSION_ID, JStr uuid),
                     (K_CURRENT_SUMMARY, JStr '''')] (snd hw))))"

text \<open>
  The user edits the summary or the note; the debounced writers fire a quarter of a
  second after the last edit.
\<close>

definition summaryInputEvent :: "string \<Rightarrow> home \<Rightarrow> home" where
  "summaryInputEvent text h = validateSummary (h\<lparr>summaryInput := text\<rparr>)"

definition noteInputEvent :: "string \<Rightarrow> home \<Rightarrow> home" where
  "noteInputEvent text h = h\<lparr>noteInput := text, pendingNoteSync := Some text\<rparr>"

definition fireSummarySync :: "home \<times> world \<Rightarrow> home \<times> world" where
  "fireSummarySync hw =
     (case pendingSummarySync (fst hw) of
        None \<Rightarrow> hw
      | Some text \<Rightarrow>
          ((fst hw)\<lparr>pendingSummarySync := None\<rparr>,
           storage_set [(K_CURRENT_SUMMARY, JStr text)] (snd hw)))"

definition fireNoteSync :: "home \<times> world \<Rightarrow> home \<times> world" where
  "fireNoteSync hw =
     (case pendingNoteSync (fst hw) of
        None \<Rightarrow> hw
      | Some text \<Rightarrow>
          ((fst hw)\<lparr>pendingNoteSync := None\<rparr>,
           storage_set [(K_CURRENT_NOTE, JStr text)] (snd hw)))"

text \<open>
  \<open>handleStorageChange\<close>; \<open>changes k\<close> is the pair of the old and the new value of a key
  that changed.
\<close>

definition handleStorageChange ::
  "env \<Rightarrow> (string \<Rightarrow> (json option \<times> json option) option) \<Rightarrow> string \<Rightarrow> home \<times> world
   \<Rightarrow> home \<times> world" where
  "handleStorageChange E changes namespace hw =
     (if namespace \<noteq> ''local'' then hw
      else
        (let h1 = (case changes K_CURRENT_SUMMARY of
                     None \<Rightarrow> fst hw
                   | Some change \<Rightarrow>
                       (let newText = js_or (snd change) (JStr '''') in
                        if JStr (summaryInput (fst hw)) \<noteq> newText
                        then validateSummary ((fst hw)\<lparr>summaryInput := dom_string E newText\<rparr>)
                        else fst hw));
             h2 = (case changes K_CURRENT_NOTE of
                     None \<Rightarrow> h1
                   | Some change \<Rightarrow>
                       (let newText = js_or (snd change) (JStr '''') in
                        if JStr (noteInput h1) \<noteq> newText
                        then h1\<lparr>noteInput := dom_string E newText\<rparr>
                        else h1))
         in case changes K_TIMER_STATE of
              None \<Rightarrow> (h2, snd hw)
            | Some change \<Rightarrow>
                (let hw1 = updateUI E (h2, snd hw)
                 in if snd change = Some START then loadLogs E hw1 else hw1)))"

subsection \<open>Logging a session or a note, editing an entry\<close>

text \<open>
  \<open>saveLog\<close>. The only test of the summary is that it is not blank. The start of the
  session is computed from the stored end time and duration; \<open>toISOString\<close> throws a
  \<open>RangeError\<close> when one of the two dates is invalid, and the promise of \<open>saveLog\<close>
  rejects.
\<close>

definition saveLog :: "env \<Rightarrow> home \<times> world \<Rightarrow> js_error + home \<times> world" where
  "saveLog E hw =
     (let summaryText = summaryInput (fst hw) in
      if length (trim summaryText) = 0 then Inr hw
      else
        (let result = storage_get [K_DURATION, K_END_TIME, K_SESSION_ID] (snd hw);
             duration = result K_DURATION;
             endTime = result K_END_TIME;
             sessionId = result K_SESSION_ID;
             endDate = newDate E endTime;
             startDate = (case (endDate, to_number E duration) of
                            (Some t, Some d) \<Rightarrow> timeClip (t - d * 60 * 1000)
                          | _ \<Rightarrow> None)
         in case (startDate, endDate) of
              (Some st, Some et) \<Rightarrow>
                (let logEntry = object_literal
                       [(''type'', Some (JStr ''session'')),
                        (''sessionId'', sessionId),
                        (''start_time'', Some (JStr (toISOString E st))),
                        (''end_time'', Some (JStr (toISOString E et))),
                        (''duration'', duration),
                        (''summary_text'', Some (JStr summaryText))]
                 in Inr (resetToStartState E (appendLogToFile E logEntry hw)))
            | _ \<Rightarrow> Inl RangeError))"

definition saveNote :: "env \<Rightarrow> int \<Rightarrow> string \<Rightarrow> home \<times> world \<Rightarrow> home \<times> world" where
  "saveNote E now uuid hw =
     (let noteText = noteInput (fst hw) in
      if length (trim noteText) = 0 then hw
      else
        (let logEntry = object_literal
               [(''type'', Some (JStr ''note'')),
                (''sessionId'', Some (JStr uuid)),
                (''end_time'', Some (JStr (toISOString E now))),
                (''summary_text'', Some (JStr noteText))];
             hw1 = appendLogToFile E logEntry hw
         in loadLogs E
              ((fst hw1)\<lparr>noteInput := ''''\<rparr>,
               storage_set [(K_CURRENT_NOTE, JStr '''')] (snd hw1))))"

text \<open>
  \<open>logEntries.findIndex((entry) => entry.sessionId === sessionId)\<close>: the first entry whose
  identifier is the string asked for. Reading the property of an entry that is \<open>null\<close>
  throws a \<open>TypeError\<close>.
\<close>

fun findIndex_sessionId :: "string \<Rightarrow> json list \<Rightarrow> js_error + nat option" where
  "findIndex_sessionId sessionId [] = Inr None"
| "findIndex_sessionId sessionId (entry # entries) =
     (if entry = JNull then Inl TypeError
      else if get_prop entry ''sessionId'' = Some (JStr sessionId) then Inr (Some 0)
      else (case findIndex_sessionId sessionId entries of
              Inl err \<Rightarrow> Inl err
            | Inr None \<Rightarrow> Inr None
            | Inr (Some i) \<Rightarrow> Inr (Some (Suc i))))"

text \<open>
  \<open>entry[k] = v\<close>: the value of an existing property is replaced where it stands, a new
  property goes last. In the strict code of a class the assignment to a property of
  \<open>null\<close> or of a primitive value throws; a named property of an array is not part of
  its JSON text.
\<close>

fun assign_alist :: "string \<Rightarrow> json \<Rightarrow> (string \<times> json) list \<Rightarrow> (string \<times> json) list" where
  "assign_alist k v [] = [(k, v)]"
| "assign_alist k v (p # ps) = (if fst p = k then (k, v) # ps else p # assign_alist k v ps)"

fun assign_prop :: "json \<Rightarrow> string \<Rightarrow> json \<Rightarrow> js_error + json" where
  "assign_prop (JObj kvs) k v = Inr (JObj (assign_alist k v kvs))"
| "assign_prop (JArr xs) k v = Inr (JArr xs)"
| "assign_prop x k v = Inl TypeError"

text \<open>The body of the \<open>try\<close> of \<open>updateLogEntry\<close>, and the function with its \<open>catch\<close>.\<close>

definition update_try :: "env \<Rightarrow> string \<Rightarrow> string \<Rightarrow> home \<times> world \<Rightarrow> js_error + world" where
  "update_try E sessionId newSummaryText hw =
     (if \<not> fileHandle (fst hw) then Inl TypeError
      else
        (case file_text (snd hw) of
           Inl err \<Rightarrow> Inl err
         | Inr content \<Rightarrow>
             (case parse_lines E content of
                None \<Rightarrow> Inl SyntaxError
              | Some logEntries \<Rightarrow>
                  (case findIndex_sessionId sessionId logEntries of
                     Inl err \<Rightarrow> Inl err
                   | Inr None \<Rightarrow> Inl (Error ''Log entry not found.'')
                   | Inr (Some entryIndex) \<Rightarrow>
                       (case assign_prop (logEntries ! entryIndex) ''summary_text''
                               (JStr newSummaryText) of
                          Inl err \<Rightarrow> Inl err
                        | Inr entry \<Rightarrow>
                            (let newContent =
                                   join_lines
                                     (map (json_stringify E) (logEntries[entryIndex := entry]))
                             in file_write newContent (snd hw)))))))"

definition updateLogEntry :: "env \<Rightarrow> string \<Rightarrow> string \<Rightarrow> home \<times> world \<Rightarrow> home \<times> world" where
  "updateLogEntry E sessionId newSummaryText hw =
     (case update_try E sessionId newSummaryText hw of
        Inl err \<Rightarrow>
          (showError ''Could not update the log file.'' (fst hw),
           log_error ''Error updating log:'' (Some err) (snd hw))
      | Inr w \<Rightarrow> (fst hw, w))"

text \<open>\<open>initializeView\<close>: the handle comes back from IndexedDB, then the page is drawn.\<close>

definition initializeView :: "env \<Rightarrow> home \<times> world \<Rightarrow> home \<times> world" where
  "initializeView E hw =
     loadLogs E (updateUI E (hideError ((fst hw)\<lparr>fileHandle := idb_handle (snd hw)\<rparr>), snd hw))"

subsection \<open>The background script\<close>

text \<open>
  \<open>handleInstallation\<close> takes no argument: it does not look at the reason of the
  \<open>onInstalled\<close> event.
\<close>

definition handleInstallation :: "world \<Rightarrow> world" where
  "handleInstallation w =
     storage_set [(K_TIMER_STATE, START), (K_END_TIME, JNull), (K_DURATION, JNum 0)] w"

definition redirectToHomePage :: "nat \<Rightarrow> world \<Rightarrow> world" where
  "redirectToHomePage tabId w = w\<lparr>redirected_tabs := redirected_tabs w @ [tabId]\<rparr>"

definition showTimerFinishedNotification :: "world \<Rightarrow> world" where
  "showTimerFinishedNotification w =
     w\<lparr>notifications := notifications w @ [''FocusFlow Session Complete!'']\<rparr>"

text \<open>
  \<open>isUrlBlockable\<close> on the stored value of the exclusion list. A URL that is never
  blockable returns before the loop. The loop takes the elements in order and calls
  \<open>wildcard.replace\<close> on each: an element that is not a string throws a \<open>TypeError\<close> when
  the loop reaches it, as does a value that cannot be iterated; a string is iterated
  character by character.
\<close>

definition stored_patterns :: "json \<Rightarrow> (string list \<times> bool) option" where
  "stored_patterns v =
     (case v of
        JArr xs \<Rightarrow>
          Some (map (\<lambda>x. case x of JStr s \<Rightarrow> s | _ \<Rightarrow> [])
                  (takeWhile (\<lambda>x. case x of JStr s \<Rightarrow> True | _ \<Rightarrow> False) xs),
                list_all (\<lambda>x. case x of JStr s \<Rightarrow> True | _ \<Rightarrow> False) xs)
      | JStr s \<Rightarrow> Some (map (\<lambda>c. [c]) s, True)
      | _ \<Rightarrow> None)"

definition isUrlBlockable_stored :: "string \<Rightarrow> string \<Rightarrow> json \<Rightarrow> js_error + bool" where
  "isUrlBlockable_stored runtime_id url excludedUrls =
     (if returns_false_early runtime_id url then Inr False
      else (case stored_patterns excludedUrls of
              None \<Rightarrow> Inl TypeError
            | Some (ps, all_strings) \<Rightarrow>
                (case isUrlBlockable runtime_id url ps of
                   None \<Rightarrow> Inl SyntaxError
                 | Some False \<Rightarrow> Inr False
                 | Some True \<Rightarrow> if all_strings then Inr True else Inl TypeError)))"

text \<open>
  \<open>handleTabUpdate\<close>, with the status of \<open>changeInfo\<close> and the URL of the tab; what is
  thrown inside is caught and logged.
\<close>

definition handleTabUpdate ::
  "string \<Rightarrow> nat \<Rightarrow> string option \<Rightarrow> string option \<Rightarrow> world \<Rightarrow> world" where
  "handleTabUpdate runtime_id tabId status url w =
     (case url of
        None \<Rightarrow> w
      | Some u \<Rightarrow>
          if u \<noteq> [] \<and> status = Some ''complete''
          then (let result = storage_get [K_TIMER_STATE, K_EXCLUDED_URLS] w;
                    state = result K_TIMER_STATE;
                    excludedUrls = js_or (result K_EXCLUDED_URLS) (JArr [])
                in if state \<noteq> Some RUNNING
                   then (case isUrlBlockable_stored runtime_id u excludedUrls of
                           Inl err \<Rightarrow>
                             log_error ''FocusFlow: Error handling tab update:'' (Some err) w
                         | Inr True \<Rightarrow> redirectToHomePage tabId w
                         | Inr False \<Rightarrow> w)
                   else w)
          else w)"

definition handleMessage :: "json \<Rightarrow> world \<Rightarrow> world" where
  "handleMessage request w =
     (if request \<noteq> JNull \<and> get_prop request ''type'' = Some (JStr ''timerFinished'')
      then showTimerFinishedNotification w else w)"

text \<open>
  The events the browser delivers to the service worker, and \<open>setupListeners\<close>: a
  listener for \<open>onInstalled\<close> (whatever the reason of the event), \<open>tabs.onUpdated\<close> and
  \<open>runtime.onMessage\<close>; none for the start of the browser.
\<close>

datatype install_reason = Install | Update | ChromeUpdate | SharedModuleUpdate

datatype background_event =
    OnInstalled install_reason
  | OnStartup
  | OnTabUpdated nat "string option" "string option"
  | OnMessage json

definition background_dispatch :: "string \<Rightarrow> background_event \<Rightarrow> world \<Rightarrow> world" where
  "background_dispatch runtime_id ev w =
     (case ev of
        OnInstalled reason \<Rightarrow> handleInstallation w
      | OnStartup \<Rightarrow> w
      | OnTabUpdated tabId status url \<Rightarrow> handleTabUpdate runtime_id tabId status url w
      | OnMessage request \<Rightarrow> handleMessage request w)"

subsection \<open>Auxiliary notions for the verification\<close>

text \<open>
  The submit button reflects the text that the summary input holds, as \<open>validateSummary\<close>
  leaves it.
\<close>

definition gate_consistent :: "home \<Rightarrow> bool" where
  "gate_consistent h =
     (submitLogDisabled h = (length (summary_words (summaryInput h)) < MIN_SUMMARY_WORDS))"

text \<open>
  The world that a countdown leaves when it runs out in the instance \<open>h\<close>: the tick
  cancelled, phase END written, the signal sent.
\<close>

definition expired_world :: "home \<Rightarrow> world \<Rightarrow> world" where
  "expired_world h w =
     (storage_set [(K_TIMER_STATE, END)] (clearInterval (countdownInterval h) w))
       \<lparr>sent_messages := sent_messages w @ [JObj [(''type'', JStr ''timerFinished'')]]\<rparr>"

text \<open>The time left that the tick of the interval \<open>i\<close> computes at the clock \<open>now\<close>.\<close>

definition timeLeft :: "world \<Rightarrow> nat \<Rightarrow> int \<Rightarrow> int option" where
  "timeLeft w i now = map_option (\<lambda>endTime. endTime - now) (timers w i)"

text \<open>
  What the platform guarantees for the JSON text of a log entry: it parses back to the
  entry, holds no line feed, and starts and ends with a character that is not white space
  (a brace). The time of an entry is the time value of its \<open>end_time\<close>.
\<close>

definition serialisable :: "env \<Rightarrow> json \<Rightarrow> bool" where
  "serialisable E e =
     (json_parse E (json_stringify E e) = Some e \<and>
      CHR 0x0A \<notin> set (json_stringify E e) \<and>
      json_stringify E e \<noteq> [] \<and>
      \<not> js_space (hd (json_stringify E e)) \<and>
      \<not> js_space (last (json_stringify E e)))"

definition end_time_ms :: "env \<Rightarrow> json \<Rightarrow> int" where
  "end_time_ms E e = (case newDate E (get_prop e ''end_time'') of None \<Rightarrow> 0 | Some t \<Rightarrow> t)"

definition is_object :: "json \<Rightarrow> bool" where
  "is_object e = (case e of JObj props \<Rightarrow> True | _ \<Rightarrow> False)"

text \<open>The entries that the log container shows, top first.\<close>

definition shown_entries :: "log_view \<Rightarrow> json list" where
  "shown_entries v = (case v of Rendered logEntries \<Rightarrow> logEntries | _ \<Rightarrow> [])"

subsection \<open>A concrete platform and state\<close>

text \<open>
  A session of 25 minutes started at 2023-11-14T22:13:20Z, and a note of the next
  morning. The platform functions are given on the values that occur: the three
  timestamps with their ISO texts and the log entries with their JSON lines.
\<close>

definition demo_start :: int where "demo_start = 1700000000000"
definition demo_end :: int where "demo_end = 1700001500000"
definition demo_note_time :: int where "demo_note_time = 1700035200000"

definition demo_newDate :: "json option \<Rightarrow> int option" where
  "demo_newDate v =
     (case v of
        None \<Rightarrow> None
      | Some JNull \<Rightarrow> Some 0
      | Some (JNum n) \<Rightarrow> timeClip n
      | Some (JStr s) \<Rightarrow>
          if s = ''2023-11-14T22:13:20.000Z'' then Some demo_start
          else if s = ''2023-11-14T22:38:20.000Z'' then Some demo_end
          else if s = ''2023-11-15T08:00:00.000Z'' then Some demo_note_time
          else None
      | Some _ \<Rightarrow> None)"

definition demo_toISOString :: "int \<Rightarrow> string" where
  "demo_toISOString t =
     (if t = demo_start then ''2023-11-14T22:13:20.000Z''
      else if t = demo_end then ''2023-11-14T22:38:20.000Z''
      else if t = demo_note_time then ''2023-11-15T08:00:00.000Z''
      else [])"

definition demo_session :: "string \<Rightarrow> json" where
  "demo_session summary =
     JObj [(''type'', JStr ''session''), (''sessionId'', JStr ''s-1''),
           (''start_time'', JStr ''2023-11-14T22:13:20.000Z''),
           (''end_time'', JStr ''2023-11-14T22:38:20.000Z''),
           (''duration'', JNum 25), (''summary_text'', JStr summary)]"

definition demo_note :: json where
  "demo_note =
     JObj [(''type'', JStr ''note''), (''sessionId'', JStr ''n-1''),
           (''end_time'', JStr ''2023-11-15T08:00:00.000Z''),
           (''summary_text'', JStr ''call back'')]"

definition demo_session_line :: "string \<Rightarrow> string" where
  \<open>demo_session_line summary =
     ''{"type":"session","sessionId":"s-1","start_time":"2023-11-14T22:13:20.000Z",'' @
     ''"end_time":"2023-11-14T22:38:20.000Z","duration":25,"summary_text":"'' @ summary @ ''"}''\<close>

definition demo_note_line :: string where
  \<open>demo_note_line =
     ''{"type":"note","sessionId":"n-1","end_time":"2023-11-15T08:00:00.000Z",'' @
     ''"summary_text":"call back"}''\<close>

definition demo_stringify :: "json \<Rightarrow> string" where
  "demo_stringify v =
     (if v = demo_session ''wrote the parser'' then demo_session_line ''wrote the parser''
      else if v = demo_session ''revised'' then demo_session_line ''revised''
      else if v = demo_note then demo_note_line
      else ''null'')"

definition demo_parse :: "string \<Rightarrow> json option" where
  "demo_parse s =
     (if s = demo_session_line ''wrote the parser'' then Some (demo_session ''wrote the parser'')
      else if s = demo_session_line ''revised'' then Some (demo_session ''revised'')
      else if s = demo_note_line then Some demo_note
      else if s = ''null'' then Some JNull
      else None)"

definition demo_env :: env where
  "demo_env =
     \<lparr>newDate = demo_newDate, toISOString = demo_toISOString,
      json_stringify = demo_stringify, json_parse = demo_parse,
      toNumber = (\<lambda>v. None), toStr = (\<lambda>v. ''[object Object]''),
      pickFile = True, grantPermission = True\<rparr>"

text \<open>The state after that session has run out: phase END, the summary being written.\<close>

definition demo_world :: world where
  "demo_world =
     \<lparr>storage = map_of
        [(K_TIMER_STATE, END), (K_END_TIME, JStr ''2023-11-14T22:38:20.000Z''),
         (K_DURATION, JNum 25), (K_SESSION_ID, JStr ''s-1''),
         (K_CURRENT_SUMMARY, JStr ''wrote the parser''), (K_CURRENT_NOTE, JStr ''buy milk''),
         (K_EXCLUDED_URLS, JArr [JStr ''*example.com*''])],
      set_calls = [], sent_messages = [], timers = Map.empty, next_timer_id = 0,
      log_file = Some [], perm_read = Granted, perm_readwrite = Granted, idb_handle = True,
      redirected_tabs = [], notifications = [], console_errors = []\<rparr>"

definition demo_home :: home where
  "demo_home =
     \<lparr>summaryInput = [], noteInput = [], wordCounter = ''0 / 50 words'',
      wordCounterColor = ''var(--secondary-text)'', submitLogDisabled = True,
      startHidden = True, runningHidden = True, endHidden = False, summaryHidden = False,
      timerDisplay = ''00:00'', errorHidden = True, errorMessage = [], logContainer = Blank,
      countdownInterval = None, fileHandle = True, pendingSummarySync = None,
      pendingNoteSync = None\<rparr>"

text \<open>The session while it runs, with the countdowns of two open tabs.\<close>

definition demo_running :: world where
  "demo_running =
     demo_world\<lparr>storage := (storage demo_world)(K_TIMER_STATE \<mapsto> RUNNING, K_CURRENT_SUMMARY \<mapsto> JStr ''''),
                timers := [1 \<mapsto> demo_end, 2 \<mapsto> demo_end], next_timer_id := 2\<rparr>"

text \<open>The state before the session: phase START, as the reset leaves it.\<close>

definition demo_idle :: world where
  "demo_idle =
     demo_world\<lparr>storage := (storage demo_world)
       (K_TIMER_STATE \<mapsto> START, K_END_TIME \<mapsto> JNull, K_DURATION \<mapsto> JNum 0,
        K_SESSION_ID \<mapsto> JNull, K_CURRENT_SUMMARY \<mapsto> JStr '''')\<rparr>"

text \<open>The running session with a stored end time that is no date.\<close>

definition demo_broken :: world where
  "demo_broken = demo_running\<lparr>storage := (storage demo_running)(K_END_TIME \<mapsto> JStr ''not-a-date'')\<rparr>"

text \<open>The log file after the session and the note have been saved.\<close>

definition demo_log :: string where
  "demo_log = demo_session_line ''wrote the parser'' @ [CHR 0x0A] @ demo_note_line"

definition demo_logged :: world where
  "demo_logged = demo_idle\<lparr>log_file := Some demo_log\<rparr>"

section \<open>Verification\<close>

subsection \<open>The exclusion matcher\<close>

lemma regex_special_facts:
  "regex_special c \<Longrightarrow> c \<noteq> CHR ''*''"
  "\<not> regex_special (CHR ''*'')" "regex_special (CHR ''.'')" "regex_special (CHR ''^'')"
  "regex_special (CHR ''$'')" "regex_special backslash"
  by (auto simp: regex_special_def backslash_def)

lemma backslash_neq:
  "backslash \<noteq> CHR ''$''" "backslash \<noteq> CHR ''^''" "backslash \<noteq> CHR ''*''"
  "backslash \<noteq> CHR ''.''" "CHR ''$'' \<noteq> backslash" "CHR ''^'' \<noteq> backslash"
  "CHR ''*'' \<noteq> backslash" "CHR ''.'' \<noteq> backslash"
  by (simp_all add: backslash_def)

text \<open>The text after a pattern character never starts with a quantifier.\<close>

lemma regex_body_head:
  "\<exists>d ds. star_to_dotstar (escape_specials w) @ ''$'' = d # ds \<and> d \<noteq> CHR ''*''"
  by (cases w) (auto simp: star_to_dotstar_def escape_specials_def backslash_def)

lemma regex_parse_body:
  "regex_parse (star_to_dotstar (escape_specials w) @ ''$'') = Some (map glob_term w @ [EOL])"
proof (induction w)
  case Nil
  show ?case by (simp add: star_to_dotstar_def escape_specials_def)
next
  case (Cons c w)
  obtain d ds where r: "star_to_dotstar (escape_specials w) @ ''$'' = d # ds"
    and d: "d \<noteq> CHR ''*''"
    using regex_body_head by blast
  have step: "star_to_dotstar (escape_specials (c # w)) @ ''$'' =
      (if regex_special c then [backslash, c] else if c = CHR ''*'' then ''.*'' else [c]) @ d # ds"
    using r
    by (auto simp: star_to_dotstar_def escape_specials_def backslash_def regex_special_facts)
  show ?case
  proof (cases "regex_special c")
    case True
    then show ?thesis using Cons.IH r d step
      by (auto simp: glob_term_def regex_special_facts backslash_neq)
  next
    case False
    then have "c \<noteq> CHR ''^''" "c \<noteq> CHR ''$''" "c \<noteq> backslash" "c \<noteq> CHR ''.''"
      using regex_special_facts by auto
    then show ?thesis using Cons.IH r d step False
      by (auto simp: glob_term_def regex_special_facts backslash_neq)
  qed
qed

text \<open>Every pattern compiles: \<open>new RegExp\<close> never throws inside \<open>wildcardToRegex\<close>.\<close>

lemma regex_parse_wildcard:
  "regex_parse (source (wildcardToRegex w)) = Some (BOL # map glob_term w @ [EOL])"
proof -
  obtain d ds where r: "star_to_dotstar (escape_specials w) @ ''$'' = d # ds"
    using regex_body_head by blast
  show ?thesis using regex_parse_body[of w] r
    by (simp add: wildcardToRegex_def backslash_neq)
qed

lemma list_ex_upt_shift:
  "list_ex P [0..<Suc (Suc n)] = (P 0 \<or> list_ex (\<lambda>k. P (Suc k)) [0..<Suc n])"
proof -
  have h: "[0..<Suc (Suc n)] = 0 # map Suc [0..<Suc n]"
    by (metis map_Suc_upt upt_conv_Cons zero_less_Suc)
  have "list_ex P (0 # map Suc [0..<Suc n]) = (P 0 \<or> list_ex (\<lambda>k. P (Suc k)) [0..<Suc n])"
    unfolding list_ex_iff by (simp only: list.set set_map) blast
  with h show ?thesis by (simp only:)
qed

lemma match_star_dot:
  "\<forall>c\<in>set s. \<not> line_terminator c \<Longrightarrow>
   match_here ic st (Star Dot # ts) s =
   list_ex (\<lambda>k. match_here ic (st \<and> k = 0) ts (drop k s)) [0..<Suc (length s)]"
proof (induction s arbitrary: st)
  case Nil
  show ?case by simp
next
  case (Cons c cs)
  have "match_here ic st (Star Dot # ts) (c # cs) =
        (match_here ic st ts (c # cs) \<or> match_here ic False (Star Dot # ts) cs)"
    using Cons.prems by (simp add: atom_matches_def)
  also have "\<dots> = (match_here ic st ts (c # cs) \<or>
        list_ex (\<lambda>k. match_here ic False ts (drop k cs)) [0..<Suc (length cs)])"
    using Cons.IH[of False] Cons.prems by simp
  finally show ?case
    by (simp only: length_Cons list_ex_upt_shift) simp
qed

text \<open>
  The folding of the regular expression and the folding of the glob identify the same
  characters.
\<close>

lemma of_char_lt: "(of_char c :: nat) < 256"
  by (metis of_char_mod_256 mod_less_divisor zero_less_numeral)

lemma of_char_js_upper:
  "(of_char (js_upper c) :: nat) =
     (let n = (of_char c :: nat) in
      if 97 \<le> n \<and> n \<le> 122 \<or> 224 \<le> n \<and> n \<le> 254 \<and> n \<noteq> 247 then n - 32 else n)"
  using of_char_lt[of c] by (auto simp: js_upper_def Let_def)

lemma of_char_to_lower:
  "(of_char (to_lower c) :: nat) =
     (let n = (of_char c :: nat) in
      if 65 \<le> n \<and> n \<le> 90 \<or> 192 \<le> n \<and> n \<le> 222 \<and> n \<noteq> 215 then n + 32 else n)"
  using of_char_lt[of c] by (auto simp: to_lower_def Let_def)

lemma char_eq_iff_nat: "(a = b) = ((of_char a :: nat) = of_char b)"
  by auto

lemma to_lower_js_upper: "to_lower (js_upper c) = to_lower c"
  unfolding char_eq_iff_nat[of "to_lower (js_upper c)"] of_char_to_lower of_char_js_upper Let_def
  using of_char_lt[of c] by auto

lemma js_upper_to_lower: "js_upper (to_lower c) = js_upper c"
  unfolding char_eq_iff_nat[of "js_upper (to_lower c)"] of_char_to_lower of_char_js_upper Let_def
  using of_char_lt[of c] by auto

lemma same_letter: "(js_upper a = js_upper b) = (to_lower a = to_lower b)"
  by (metis to_lower_js_upper js_upper_to_lower)

text \<open>On an input without line terminators the compiled terms are the glob of the pattern.\<close>

lemma match_here_glob:
  "\<forall>c\<in>set s. \<not> line_terminator c \<Longrightarrow>
   match_here True st (map glob_term p @ [EOL]) s = glob_matches p s"
proof (induction p arbitrary: s st)
  case Nil
  show ?case by simp
next
  case (Cons a p)
  show ?case
  proof (cases "a = CHR ''*''")
    case True
    have sub: "\<And>k. \<forall>c\<in>set (drop k s). \<not> line_terminator c"
      using Cons.prems by (meson in_set_dropD)
    have "match_here True st (map glob_term (a # p) @ [EOL]) s =
          list_ex (\<lambda>k. match_here True (st \<and> k = 0) (map glob_term p @ [EOL]) (drop k s))
            [0..<Suc (length s)]"
      using True match_star_dot[OF Cons.prems] by (simp add: glob_term_def)
    also have "\<dots> = list_ex (\<lambda>k. glob_matches p (drop k s)) [0..<Suc (length s)]"
      using Cons.IH[OF sub] by simp
    finally show ?thesis using True by simp
  next
    case False
    show ?thesis
    proof (cases s)
      case Nil
      then show ?thesis using False by (simp add: glob_term_def)
    next
      case (Cons c cs)
      then have "\<forall>c\<in>set cs. \<not> line_terminator c" using Cons.prems by simp
      from Cons.IH[OF this] show ?thesis using False Cons
        by (simp add: glob_term_def atom_matches_def canonicalize_def same_letter)
    qed
  qed
qed

lemma regex_test_wildcard:
  assumes "\<forall>c\<in>set s. \<not> line_terminator c"
  shows "regex_test (wildcardToRegex p) s = Some (glob_matches p s)"
proof -
  have ic: "ignoreCase (wildcardToRegex p) = True" by (simp add: wildcardToRegex_def)
  have "list_ex (\<lambda>i. match_here True (i = 0) (BOL # map glob_term p @ [EOL]) (drop i s))
          [0..<Suc (length s)]
        = match_here True True (map glob_term p @ [EOL]) s"
    by (auto simp: list_ex_iff intro: bexI[of _ 0])
  then show ?thesis using match_here_glob[OF assms, of True p]
    by (simp add: regex_test_def regex_parse_wildcard ic)
qed

lemma exclusion_loop_glob:
  assumes "\<forall>c\<in>set u. \<not> line_terminator c"
  shows "exclusion_loop u ps = Some (\<not> (\<exists>p\<in>set ps. glob_matches p u))"
  by (induction ps) (simp_all add: regex_test_wildcard[OF assms] split: bool.splits)

lemma str_includes_longer: "length s < length t \<Longrightarrow> \<not> str_includes s t"
  by (induction s) (auto simp: startsWith_def)

lemma isUrlBlockable_unfold:
  "isUrlBlockable rid u ps =
     (if returns_false_early rid u then Some False else exclusion_loop u ps)"
  by (simp add: isUrlBlockable_def returns_false_early_def Let_def)

text \<open>
  The dot of a regular expression does not match a line terminator, so on a string with a
  line feed the wildcard stops short of the glob. The serialisation of a URL (what
  \<open>tab.url\<close> holds) has no such character.
\<close>

lemma wildcard_stops_at_line_feed:
  "regex_test (wildcardToRegex ''http://*'') (''http://a'' @ [CHR 0x0A] @ ''b'') = Some False \<and>
   glob_matches ''http://*'' (''http://a'' @ [CHR 0x0A] @ ''b'')"
  by code_simp

text \<open>
  The guard of the code against the pages that the specification exempts: it holds on
  each of them, and besides on every URL that has the identifier of the extension
  anywhere in it.
\<close>

lemma extension_page_not_web:
  assumes "startsWith u (''chrome-extension://'' @ rid)"
  shows "\<not> (startsWith u ''http://'' \<or> startsWith u ''https://'')"
proof (cases u)
  case Nil
  then show ?thesis by (simp add: startsWith_def)
next
  case (Cons c cs)
  then have "c = CHR ''c''" using assms by (simp add: startsWith_def)
  then show ?thesis using Cons by (simp add: startsWith_def)
qed

lemma returns_false_early_iff:
  "returns_false_early rid u = (spec_never_blockable rid u \<or> str_includes u rid)"
  using extension_page_not_web[of u rid]
  by (auto simp: returns_false_early_def spec_never_blockable_def)

text \<open>
  Where the code and the specification agree. A page that the specification exempts is
  never blockable. Any other URL that does not contain the identifier of the extension
  (and has no line terminator, as no serialised URL has) is blockable exactly when no
  pattern of the exclusion list matches it as a glob, so with an empty list it is
  blockable. The three examples of the specification evaluate as stated, the second for
  every identifier of the 32 characters that the browser assigns. A URL that the
  specification does not exempt but that contains the identifier is never blockable.
\<close>

lemma isUrlBlockable_glob_semantics:
  "(spec_never_blockable rid u \<longrightarrow> isUrlBlockable rid u ps = Some False) \<and>
   (\<not> spec_never_blockable rid u \<and> \<not> str_includes u rid \<and>
    (\<forall>c\<in>set u. \<not> line_terminator c) \<longrightarrow>
      isUrlBlockable rid u ps = Some (\<not> (\<exists>p\<in>set ps. glob_matches p u))) \<and>
   (\<not> spec_never_blockable rid u \<and> \<not> str_includes u rid \<longrightarrow>
      isUrlBlockable rid u [] = Some True) \<and>
   (str_includes u rid \<longrightarrow> isUrlBlockable rid u ps = Some False) \<and>
   isUrlBlockable rid ''chrome://extensions/'' [] = Some False \<and>
   (length rid = 32 \<longrightarrow> isUrlBlockable rid ''http://example.com'' [] = Some True) \<and>
   isUrlBlockable rid ''http://example.com'' [''*example.com*''] = Some False"
proof -
  have a: "spec_never_blockable rid u \<longrightarrow> isUrlBlockable rid u ps = Some False"
    by (simp add: isUrlBlockable_unfold returns_false_early_iff)
  have b: "\<not> spec_never_blockable rid u \<and> \<not> str_includes u rid \<and>
    (\<forall>c\<in>set u. \<not> line_terminator c) \<longrightarrow>
      isUrlBlockable rid u ps = Some (\<not> (\<exists>p\<in>set ps. glob_matches p u))"
    by (simp add: isUrlBlockable_unfold returns_false_early_iff exclusion_loop_glob)
  have c: "\<not> spec_never_blockable rid u \<and> \<not> str_includes u rid \<longrightarrow>
      isUrlBlockable rid u [] = Some True"
    by (simp add: isUrlBlockable_unfold returns_false_early_iff)
  have c': "str_includes u rid \<longrightarrow> isUrlBlockable rid u ps = Some False"
    by (simp add: isUrlBlockable_unfold returns_false_early_iff)
  have d: "isUrlBlockable rid ''chrome://extensions/'' [] = Some False"
    by (simp add: isUrlBlockable_unfold returns_false_early_def startsWith_def)
  have e: "length rid = 32 \<longrightarrow> isUrlBlockable rid ''http://example.com'' [] = Some True"
  proof
    assume "length rid = 32"
    then have "\<not> str_includes ''http://example.com'' rid"
      by (intro str_includes_longer) simp
    then show "isUrlBlockable rid ''http://example.com'' [] = Some True"
      by (simp add: isUrlBlockable_unfold returns_false_early_def startsWith_def)
  qed
  have nl: "\<forall>c\<in>set ''http://example.com''. \<not> line_terminator c"
    by (simp add: line_terminator_def)
  have g: "glob_matches ''*example.com*'' ''http://example.com''"
    by code_simp
  have f: "isUrlBlockable rid ''http://example.com'' [''*example.com*''] = Some False"
    using g
    by (simp add: isUrlBlockable_unfold exclusion_loop_glob[OF nl] del: exclusion_loop.simps)
  from a b c c' d e f show ?thesis by blast
qed

lemma isUrlBlockable_glob_semantics_example:
  "\<not> spec_never_blockable ''abcdefghijklmnopabcdefghijklmnop'' ''https://News.Example.com/a?b=1'' \<and>
   \<not> str_includes ''https://News.Example.com/a?b=1'' ''abcdefghijklmnopabcdefghijklmnop'' \<and>
   glob_matches ''*.example.com/*'' ''https://News.Example.com/a?b=1'' \<and>
   isUrlBlockable ''abcdefghijklmnopabcdefghijklmnop'' ''https://News.Example.com/a?b=1''
     [''https://mail.*'', ''*.example.com/*''] = Some False \<and>
   isUrlBlockable ''abcdefghijklmnopabcdefghijklmnop'' ''https://News.Example.com/a?b=1'' []
     = Some True \<and>
   spec_never_blockable ''abcdefghijklmnopabcdefghijklmnop''
     ''chrome-extension://abcdefghijklmnopabcdefghijklmnop/home.html'' \<and>
   isUrlBlockable ''abcdefghijklmnopabcdefghijklmnop''
     ''chrome-extension://abcdefghijklmnopabcdefghijklmnop/home.html'' [] = Some False"
  by code_simp

text \<open>
  Claim C1. The claim holds of the code on the pages that the specification exempts and
  on every URL without the identifier of the extension (the lemma above), but not on a
  web page whose URL contains that identifier, such as the page of the extension in the
  web store: it is an https URL, it is no page of the browser or of the extension, the
  exclusion list is empty, and \<open>isUrlBlockable\<close> returns \<open>false\<close> where the claim has
  \<open>true\<close>. The test named \<open>isExtensionPage\<close> is \<open>url.includes(chrome.runtime.id)\<close>.
\<close>

theorem web_url_with_extension_id_not_blockable:
  "startsWith ''https://chromewebstore.google.com/detail/focusflow/abcdefghijklmnopabcdefghijklmnop''
     ''https://'' \<and>
   \<not> startsWith ''https://chromewebstore.google.com/detail/focusflow/abcdefghijklmnopabcdefghijklmnop''
     ''chrome://'' \<and>
   \<not> spec_never_blockable ''abcdefghijklmnopabcdefghijklmnop''
     ''https://chromewebstore.google.com/detail/focusflow/abcdefghijklmnopabcdefghijklmnop'' \<and>
   isUrlBlockable ''abcdefghijklmnopabcdefghijklmnop''
     ''https://chromewebstore.google.com/detail/focusflow/abcdefghijklmnopabcdefghijklmnop'' []
     = Some False"
  by code_simp

subsection \<open>Facts about the state functions\<close>

lemma storage_set_fields [simp]:
  "set_calls (storage_set items w) = set_calls w @ [items]"
  "sent_messages (storage_set items w) = sent_messages w"
  "timers (storage_set items w) = timers w"
  "next_timer_id (storage_set items w) = next_timer_id w"
  "log_file (storage_set items w) = log_file w"
  "perm_read (storage_set items w) = perm_read w"
  "perm_readwrite (storage_set items w) = perm_readwrite w"
  "idb_handle (storage_set items w) = idb_handle w"
  "redirected_tabs (storage_set items w) = redirected_tabs w"
  "notifications (storage_set items w) = notifications w"
  "console_errors (storage_set items w) = console_errors w"
  by (simp_all add: storage_set_def)

lemma storage_storage_set:
  "storage (storage_set items w) = fold (\<lambda>kv m. m(fst kv := Some (snd kv))) items (storage w)"
  by (simp add: storage_set_def)

lemma log_error_fields [simp]:
  "storage (log_error l e w) = storage w"
  "set_calls (log_error l e w) = set_calls w"
  "sent_messages (log_error l e w) = sent_messages w"
  "timers (log_error l e w) = timers w"
  "next_timer_id (log_error l e w) = next_timer_id w"
  "log_file (log_error l e w) = log_file w"
  "perm_read (log_error l e w) = perm_read w"
  "perm_readwrite (log_error l e w) = perm_readwrite w"
  "idb_handle (log_error l e w) = idb_handle w"
  by (simp_all add: log_error_def)

text \<open>\<open>loadLogs\<close> writes nothing but the console.\<close>

lemma loadLogs_world:
  "snd (loadLogs E hw) = snd hw \<or>
   (\<exists>err. snd (loadLogs E hw) = log_error ''Error loading logs:'' (Some err) (snd hw))"
  by (auto simp: loadLogs_def Let_def split: permission.splits sum.splits option.splits)

lemma loadLogs_fields [simp]:
  "storage (snd (loadLogs E hw)) = storage (snd hw)"
  "set_calls (snd (loadLogs E hw)) = set_calls (snd hw)"
  "sent_messages (snd (loadLogs E hw)) = sent_messages (snd hw)"
  "timers (snd (loadLogs E hw)) = timers (snd hw)"
  "log_file (snd (loadLogs E hw)) = log_file (snd hw)"
  using loadLogs_world[of E hw] by auto

text \<open>\<open>updateUI\<close> by phase.\<close>

lemma updateUI_start:
  assumes "js_or (storage (snd hw) K_TIMER_STATE) START = START"
  shows "updateUI E hw =
     ((fst hw)\<lparr>noteInput := '''', startHidden := False, runningHidden := True, endHidden := True,
              summaryHidden := True\<rparr>, snd hw)"
  using assms by (simp add: updateUI.simps storage_get_def Let_def js_or_def dom_string_def)

lemma updateUI_end:
  assumes "js_or (storage (snd hw) K_TIMER_STATE) START = END"
  shows "updateUI E hw =
     (validateSummary
        ((fst hw)\<lparr>noteInput := '''', startHidden := True, runningHidden := True,
              endHidden := False, summaryHidden := False,
              summaryInput :=
                dom_string E (js_or (storage (snd hw) K_CURRENT_SUMMARY) (JStr ''''))\<rparr>),
      snd hw)"
  using assms by (simp add: updateUI.simps storage_get_def Let_def js_or_def dom_string_def)

lemma updateUI_running:
  assumes "js_or (storage (snd hw) K_TIMER_STATE) START = RUNNING"
  shows "updateUI E hw =
     startCountdown E (storage (snd hw) K_END_TIME)
       ((fst hw)\<lparr>noteInput := '''', startHidden := True, endHidden := True,
              summaryHidden := True, runningHidden := False\<rparr>, snd hw)"
  using assms by (simp add: updateUI.simps storage_get_def Let_def js_or_def dom_string_def)

lemma reset_phase:
  "js_or (storage (storage_set
       [(K_TIMER_STATE, START), (K_END_TIME, JNull), (K_DURATION, JNum 0),
        (K_SESSION_ID, JNull), (K_CURRENT_SUMMARY, JStr '''')] w) K_TIMER_STATE) START = START"
  by (simp add: storage_set_def js_or_def)

text \<open>The reset without the detour through \<open>updateUI\<close>: after the write the phase is START.\<close>

lemma resetToStartState_eq:
  "resetToStartState E hw =
     loadLogs E
       ((validateSummary ((fst hw)\<lparr>summaryInput := ''''\<rparr>))
          \<lparr>noteInput := '''', startHidden := False, runningHidden := True, endHidden := True,
           summaryHidden := True\<rparr>,
        storage_set
          [(K_TIMER_STATE, START), (K_END_TIME, JNull), (K_DURATION, JNum 0),
           (K_SESSION_ID, JNull), (K_CURRENT_SUMMARY, JStr '''')] (snd hw))"
  by (simp add: resetToStartState.simps Let_def updateUI_start reset_phase)

subsection \<open>The word-count gate\<close>

lemma ws_tokens_all_space: "\<forall>c\<in>set z. js_space c \<Longrightarrow> ws_tokens z = []"
  by (induction z) auto

lemma ws_tokens_dropWhile_space: "ws_tokens (dropWhile js_space x) = ws_tokens x"
  by (induction x) auto

lemma ws_tokens_unfold:
  "ws_tokens s =
     (if takeWhile (\<lambda>c. \<not> js_space c) s = [] then ws_tokens (dropWhile (\<lambda>c. \<not> js_space c) s)
      else takeWhile (\<lambda>c. \<not> js_space c) s # ws_tokens (dropWhile (\<lambda>c. \<not> js_space c) s))"
  by (cases s) auto

text \<open>The pieces of \<open>split\<close> that are not empty are the tokens.\<close>

lemma split_ws_tokens: "filter (\<lambda>word. word \<noteq> []) (split_ws s) = ws_tokens s"
proof (induction s rule: split_ws.induct)
  case (1 s)
  show ?case
  proof (cases "dropWhile (\<lambda>c. \<not> js_space c) s")
    case Nil
    then have tw: "takeWhile (\<lambda>c. \<not> js_space c) s = s"
      by (metis takeWhile_dropWhile_id append_Nil2)
    have "split_ws s = [s]" by (subst split_ws.simps) (simp only: Nil list.case)
    moreover have "ws_tokens s = (if s = [] then [] else [s])"
      by (subst ws_tokens_unfold) (simp add: tw Nil)
    ultimately show ?thesis by simp
  next
    case (Cons sp rest)
    have sp: "js_space sp" using Cons by (metis hd_dropWhile list.sel(1) list.distinct(1))
    have "split_ws s = takeWhile (\<lambda>c. \<not> js_space c) s # split_ws (dropWhile js_space rest)"
      by (subst split_ws.simps) (simp only: Cons list.case)
    moreover have "filter (\<lambda>word. word \<noteq> []) (split_ws (dropWhile js_space rest))
        = ws_tokens (sp # rest)"
      using "1.IH"[OF Cons] sp by (simp add: ws_tokens_dropWhile_space)
    ultimately show ?thesis
      by (subst ws_tokens_unfold) (simp add: Cons)
  qed
qed

lemma ws_tokens_append_space:
  "\<forall>c\<in>set z. js_space c \<Longrightarrow> ws_tokens (y @ z) = ws_tokens y"
proof (induction y rule: ws_tokens.induct)
  case 1
  then show ?case by (simp add: ws_tokens_all_space)
next
  case (2 c cs)
  show ?case
  proof (cases "js_space c")
    case True
    then show ?thesis using 2 by simp
  next
    case False
    have tz: "takeWhile (\<lambda>c. \<not> js_space c) z = []" using "2.prems" by (cases z) auto
    have dz: "dropWhile (\<lambda>c. \<not> js_space c) z = z" using "2.prems" by (cases z) auto
    show ?thesis
    proof (cases "\<forall>x\<in>set cs. \<not> js_space x")
      case True
      then have e: "takeWhile (\<lambda>c. \<not> js_space c) (cs @ z) = cs"
        "dropWhile (\<lambda>c. \<not> js_space c) (cs @ z) = z"
        "takeWhile (\<lambda>c. \<not> js_space c) cs = cs" "dropWhile (\<lambda>c. \<not> js_space c) cs = []"
        by (simp_all add: tz dz)
      have "ws_tokens ((c # cs) @ z) = [c # cs]"
        using False "2.prems"
        by (simp only: append_Cons ws_tokens.simps e if_False ws_tokens_all_space)
      moreover have "ws_tokens (c # cs) = [c # cs]"
        using False by (simp only: ws_tokens.simps e if_False)
      ultimately show ?thesis by simp
    next
      case nall: False
      then obtain x where "x \<in> set cs" "js_space x" by blast
      then have "takeWhile (\<lambda>c. \<not> js_space c) (cs @ z) = takeWhile (\<lambda>c. \<not> js_space c) cs"
        "dropWhile (\<lambda>c. \<not> js_space c) (cs @ z) = dropWhile (\<lambda>c. \<not> js_space c) cs @ z"
        by (auto simp: takeWhile_append1 dropWhile_append1)
      then show ?thesis using False "2.IH"(2)[OF False "2.prems"] by simp
    qed
  qed
qed

lemma ws_tokens_trim: "ws_tokens (trim s) = ws_tokens s"
proof -
  let ?d = "dropWhile js_space s"
  have "?d = rev (dropWhile js_space (rev ?d)) @ rev (takeWhile js_space (rev ?d))"
    by (metis rev_append rev_rev_ident takeWhile_dropWhile_id)
  moreover have "\<forall>c\<in>set (rev (takeWhile js_space (rev ?d))). js_space c"
    by (auto dest: set_takeWhileD)
  ultimately have "ws_tokens ?d = ws_tokens (rev (dropWhile js_space (rev ?d)))"
    by (metis ws_tokens_append_space)
  then show ?thesis by (simp add: trim_def ws_tokens_dropWhile_space)
qed

text \<open>The words that \<open>validateSummary\<close> counts are the white-space delimited tokens.\<close>

lemma summary_words_tokens: "summary_words t = ws_tokens t"
  by (simp add: summary_words_def split_ws_tokens ws_tokens_trim)

lemma ws_tokens_repeat: "length (ws_tokens (concat (replicate n ''word ''))) = n"
  by (induction n) (simp_all add: js_space_def)

lemma validateSummary_gate:
  "submitLogDisabled (validateSummary h) = (length (ws_tokens (summaryInput h)) < 50)"
  by (auto simp: validateSummary_def Let_def summary_words_tokens MIN_SUMMARY_WORDS_def)

lemma gate_validate [simp]: "gate_consistent (validateSummary h)"
  by (simp add: gate_consistent_def validateSummary_def Let_def)

lemma summaryInput_validate [simp]: "summaryInput (validateSummary h) = summaryInput h"
  by (simp add: validateSummary_def Let_def)

lemma gate_consistent_upd [simp]:
  "gate_consistent (h\<lparr>noteInput := a\<rparr>) = gate_consistent h"
  "gate_consistent (h\<lparr>startHidden := b\<rparr>) = gate_consistent h"
  "gate_consistent (h\<lparr>runningHidden := b\<rparr>) = gate_consistent h"
  "gate_consistent (h\<lparr>endHidden := b\<rparr>) = gate_consistent h"
  "gate_consistent (h\<lparr>summaryHidden := b\<rparr>) = gate_consistent h"
  "gate_consistent (h\<lparr>errorHidden := b\<rparr>) = gate_consistent h"
  "gate_consistent (h\<lparr>errorMessage := m\<rparr>) = gate_consistent h"
  "gate_consistent (h\<lparr>logContainer := v\<rparr>) = gate_consistent h"
  "gate_consistent (h\<lparr>countdownInterval := i\<rparr>) = gate_consistent h"
  "gate_consistent (h\<lparr>timerDisplay := d\<rparr>) = gate_consistent h"
  "gate_consistent (h\<lparr>fileHandle := f\<rparr>) = gate_consistent h"
  by (simp_all add: gate_consistent_def)

lemma loadLogs_gate [simp]: "gate_consistent (fst (loadLogs E hw)) = gate_consistent (fst hw)"
  by (auto simp: loadLogs_def Let_def hideError_def showError_def
      split: permission.splits sum.splits option.splits)

lemma gate_reset [simp]: "gate_consistent (fst (resetToStartState E hw))"
  by (simp add: resetToStartState_eq)

lemma gate_startCountdown:
  "gate_consistent (fst hw) \<Longrightarrow> gate_consistent (fst (startCountdown E v hw))"
  by (simp add: startCountdown.simps Let_def split: option.splits)

text \<open>Every way through \<open>updateUI\<close> and \<open>handleStorageChange\<close> keeps the gate consistent.\<close>

lemma gate_updateUI:
  "gate_consistent (fst hw) \<Longrightarrow> gate_consistent (fst (updateUI E hw))"
proof -
  assume g: "gate_consistent (fst hw)"
  let ?s = "js_or (storage (snd hw) K_TIMER_STATE) START"
  consider "?s = START" | "?s = RUNNING" | "?s = END"
    | "?s \<noteq> START" "?s \<noteq> RUNNING" "?s \<noteq> END"
    by blast
  then show ?thesis
  proof cases
    case 1 then show ?thesis using g by (simp add: updateUI_start)
  next
    case 2 then show ?thesis using g by (simp add: updateUI_running gate_startCountdown)
  next
    case 3 then show ?thesis by (simp add: updateUI_end)
  next
    case 4 then show ?thesis using g
      by (simp add: updateUI.simps storage_get_def Let_def)
  qed
qed

lemma gate_handleStorageChange:
  "gate_consistent (fst hw) \<Longrightarrow> gate_consistent (fst (handleStorageChange E changes ns hw))"
  by (auto simp: handleStorageChange_def Let_def gate_updateUI split: option.splits)

text \<open>
  Claim C7. The submit button is enabled exactly when the summary holds at least 50
  white-space delimited tokens. That is what a local edit computes; a change of
  \<open>currentSummary\<close> that arrives from another context through the storage notification
  (with no change of phase in the same notification) leaves the input with the new text
  and the button in the state the local edit of that text gives, on a page whose button
  reflected its text before (which every handler preserves, here for the notification
  handler with any changes and namespace). 49 tokens disable the button, 50 enable it.
\<close>

theorem word_count_gate:
  "submitLogDisabled (summaryInputEvent t h) = (length (ws_tokens t) < 50) \<and>
   (gate_consistent h' \<and> changes K_CURRENT_SUMMARY = Some (old, Some (JStr t)) \<and>
    changes K_TIMER_STATE = None \<longrightarrow>
      summaryInput (fst (handleStorageChange E changes ''local'' (h', w))) = t \<and>
      submitLogDisabled (fst (handleStorageChange E changes ''local'' (h', w))) =
        submitLogDisabled (summaryInputEvent t h)) \<and>
   (gate_consistent h' \<longrightarrow> gate_consistent (fst (handleStorageChange E changes' ns (h', w)))) \<and>
   submitLogDisabled (summaryInputEvent (concat (replicate 49 ''word '')) h) \<and>
   \<not> submitLogDisabled (summaryInputEvent (concat (replicate 50 ''word '')) h)"
proof -
  have local: "\<And>t h. submitLogDisabled (summaryInputEvent t h) = (length (ws_tokens t) < 50)"
    by (simp add: summaryInputEvent_def validateSummary_gate)
  have remote: "gate_consistent h' \<and> changes K_CURRENT_SUMMARY = Some (old, Some (JStr t)) \<and>
    changes K_TIMER_STATE = None \<longrightarrow>
      summaryInput (fst (handleStorageChange E changes ''local'' (h', w))) = t \<and>
      submitLogDisabled (fst (handleStorageChange E changes ''local'' (h', w))) =
        submitLogDisabled (summaryInputEvent t h)"
  proof (intro impI, elim conjE)
    assume g: "gate_consistent h'" and c: "changes K_CURRENT_SUMMARY = Some (old, Some (JStr t))"
      and p: "changes K_TIMER_STATE = None"
    have nt: "js_or (Some (JStr t)) (JStr '''') = JStr t" by (simp add: js_or_def)
    show "summaryInput (fst (handleStorageChange E changes ''local'' (h', w))) = t \<and>
      submitLogDisabled (fst (handleStorageChange E changes ''local'' (h', w))) =
        submitLogDisabled (summaryInputEvent t h)"
    proof (cases "summaryInput h' = t")
      case True
      then show ?thesis using g c p
        by (auto simp: handleStorageChange_def Let_def nt local gate_consistent_def
            summary_words_tokens MIN_SUMMARY_WORDS_def split: option.splits)
    next
      case False
      then show ?thesis using c p
        by (auto simp: handleStorageChange_def Let_def nt local dom_string_def
            validateSummary_gate split: option.splits)
    qed
  qed
  have inv: "gate_consistent h' \<longrightarrow>
      gate_consistent (fst (handleStorageChange E changes' ns (h', w)))"
    using gate_handleStorageChange[of "(h', w)"] by simp
  have e49: "submitLogDisabled (summaryInputEvent (concat (replicate 49 ''word '')) h)"
    unfolding local ws_tokens_repeat by simp
  have e50: "\<not> submitLogDisabled (summaryInputEvent (concat (replicate 50 ''word '')) h)"
    unfolding local ws_tokens_repeat by simp
  from local[of t h] remote inv e49 e50 show ?thesis by blast
qed

theorem word_count_gate_witness:
  "gate_consistent demo_home \<and> submitLogDisabled demo_home \<and>
   summaryInput (fst (handleStorageChange demo_env
      (\<lambda>k. if k = K_CURRENT_SUMMARY
           then Some (Some (JStr ''''), Some (JStr (concat (replicate 50 ''word '')))) else None)
      ''local'' (demo_home, demo_world))) = concat (replicate 50 ''word '') \<and>
   submitLogDisabled (fst (handleStorageChange demo_env
      (\<lambda>k. if k = K_CURRENT_SUMMARY
           then Some (Some (JStr ''''), Some (JStr (concat (replicate 50 ''word '')))) else None)
      ''local'' (demo_home, demo_world))) = False"
proof -
  let ?t = "concat (replicate 50 ''word '')"
  let ?ch = "\<lambda>k. if k = K_CURRENT_SUMMARY then Some (Some (JStr ''''), Some (JStr ?t)) else None"
  have g: "gate_consistent demo_home"
    by (simp add: gate_consistent_def summary_words_tokens demo_home_def MIN_SUMMARY_WORDS_def)
  have d: "submitLogDisabled demo_home" by (simp add: demo_home_def)
  have c1: "?ch K_CURRENT_SUMMARY = Some (Some (JStr ''''), Some (JStr ?t))" by simp
  have c2: "?ch K_TIMER_STATE = None" by simp
  note T = word_count_gate[of ?t demo_home demo_home ?ch "Some (JStr '''')" demo_env demo_world]
  have r1: "summaryInput (fst (handleStorageChange demo_env ?ch ''local'' (demo_home, demo_world))) = ?t"
    using T g c1 c2 by blast
  have r2: "submitLogDisabled (fst (handleStorageChange demo_env ?ch ''local'' (demo_home, demo_world)))
      = submitLogDisabled (summaryInputEvent ?t demo_home)"
    using T g c1 c2 by blast
  have r3: "\<not> submitLogDisabled (summaryInputEvent ?t demo_home)"
    using T by blast
  from g d r1 r2 r3 show ?thesis by simp
qed

subsection \<open>The reset to START\<close>

lemma loadLogs_home_fields [simp]:
  "pendingSummarySync (fst (loadLogs E hw)) = pendingSummarySync (fst hw)"
  "summaryInput (fst (loadLogs E hw)) = summaryInput (fst hw)"
  "submitLogDisabled (fst (loadLogs E hw)) = submitLogDisabled (fst hw)"
  "countdownInterval (fst (loadLogs E hw)) = countdownInterval (fst hw)"
  "fileHandle (fst (loadLogs E hw)) = fileHandle (fst hw)"
  "startHidden (fst (loadLogs E hw)) = startHidden (fst hw)"
  "runningHidden (fst (loadLogs E hw)) = runningHidden (fst hw)"
  by (auto simp: loadLogs_def Let_def hideError_def showError_def
      split: permission.splits sum.splits option.splits)

lemma validateSummary_fields [simp]:
  "pendingSummarySync (validateSummary h) = Some (summaryInput h)"
  "countdownInterval (validateSummary h) = countdownInterval h"
  "fileHandle (validateSummary h) = fileHandle h"
  "errorHidden (validateSummary h) = errorHidden h"
  "errorMessage (validateSummary h) = errorMessage h"
  by (simp_all add: validateSummary_def Let_def)

lemma reset_pending_sync: "pendingSummarySync (fst (resetToStartState E (h, w))) = Some ''''"
    by (simp add: resetToStartState_eq)

lemma reset_storage: "storage (snd (resetToStartState E (h, w))) =
      (storage w)(K_TIMER_STATE \<mapsto> START, K_END_TIME \<mapsto> JNull, K_DURATION \<mapsto> JNum 0,
                  K_SESSION_ID \<mapsto> JNull, K_CURRENT_SUMMARY \<mapsto> JStr '''')"
    by (simp add: resetToStartState_eq storage_storage_set)

lemma reset_then_sync: "storage (snd (fireSummarySync (resetToStartState E (h, w)))) =
     storage (snd (resetToStartState E (h, w)))"
    by (simp add: fireSummarySync_def reset_pending_sync storage_storage_set reset_storage)

lemma reset_set_calls: "set_calls (snd (resetToStartState E (h, w))) =
     set_calls w @ [[(K_TIMER_STATE, START), (K_END_TIME, JNull), (K_DURATION, JNum 0),
                     (K_SESSION_ID, JNull), (K_CURRENT_SUMMARY, JStr '''')]]"
    by (simp add: resetToStartState_eq)

text \<open>
  Claim C8. The reset writes phase START and clears the end time, the duration, the
  session identifier and the summary, in one call; every other stored key, the exclusion
  list and the note among them, keeps its value, also when the debounced writer of the
  summary fires afterwards. This holds from every state, phase END included.
\<close>

theorem resetToStartState_frame:
  "storage (snd (resetToStartState E (h, w))) K_TIMER_STATE = Some START \<and>
   storage (snd (resetToStartState E (h, w))) K_END_TIME = Some JNull \<and>
   storage (snd (resetToStartState E (h, w))) K_DURATION = Some (JNum 0) \<and>
   storage (snd (resetToStartState E (h, w))) K_SESSION_ID = Some JNull \<and>
   storage (snd (resetToStartState E (h, w))) K_CURRENT_SUMMARY = Some (JStr '''') \<and>
   (\<forall>k. k \<notin> {K_TIMER_STATE, K_END_TIME, K_DURATION, K_SESSION_ID, K_CURRENT_SUMMARY} \<longrightarrow>
        storage (snd (resetToStartState E (h, w))) k = storage w k) \<and>
   storage (snd (resetToStartState E (h, w))) K_EXCLUDED_URLS = storage w K_EXCLUDED_URLS \<and>
   storage (snd (resetToStartState E (h, w))) K_CURRENT_NOTE = storage w K_CURRENT_NOTE \<and>
   set_calls (snd (resetToStartState E (h, w))) =
     set_calls w @ [[(K_TIMER_STATE, START), (K_END_TIME, JNull), (K_DURATION, JNum 0),
                     (K_SESSION_ID, JNull), (K_CURRENT_SUMMARY, JStr '''')]] \<and>
   storage (snd (fireSummarySync (resetToStartState E (h, w)))) =
     storage (snd (resetToStartState E (h, w)))"
  apply (intro conjI allI impI)
           apply (simp_all only: reset_then_sync reset_set_calls)
         apply (simp_all add: reset_storage)
  done

theorem resetToStartState_frame_witness:
  "storage demo_world K_TIMER_STATE = Some END \<and>
   storage (snd (resetToStartState demo_env (demo_home, demo_world))) K_TIMER_STATE = Some START \<and>
   storage (snd (resetToStartState demo_env (demo_home, demo_world))) K_SESSION_ID = Some JNull \<and>
   storage (snd (resetToStartState demo_env (demo_home, demo_world))) K_EXCLUDED_URLS =
     Some (JArr [JStr ''*example.com*'']) \<and>
   storage (snd (resetToStartState demo_env (demo_home, demo_world))) K_CURRENT_NOTE =
     Some (JStr ''buy milk'')"
proof -
  let ?w = "snd (resetToStartState demo_env (demo_home, demo_world))"
  note T = resetToStartState_frame[of demo_env demo_home demo_world]
  have a: "storage demo_world K_TIMER_STATE = Some END"
    by (simp add: demo_world_def)
  have b: "storage demo_world K_EXCLUDED_URLS = Some (JArr [JStr ''*example.com*''])"
    by (simp add: demo_world_def)
  have c: "storage demo_world K_CURRENT_NOTE = Some (JStr ''buy milk'')"
    by (simp add: demo_world_def)
  have k1: "K_EXCLUDED_URLS \<notin> {K_TIMER_STATE, K_END_TIME, K_DURATION, K_SESSION_ID, K_CURRENT_SUMMARY}"
    by simp
  have k2: "K_CURRENT_NOTE \<notin> {K_TIMER_STATE, K_END_TIME, K_DURATION, K_SESSION_ID, K_CURRENT_SUMMARY}"
    by simp
  from T have all: "\<forall>k. k \<notin> {K_TIMER_STATE, K_END_TIME, K_DURATION, K_SESSION_ID, K_CURRENT_SUMMARY} \<longrightarrow>
        storage ?w k = storage demo_world k"
    by blast
  have r1: "storage ?w K_EXCLUDED_URLS = storage demo_world K_EXCLUDED_URLS"
    by (rule all[rule_format, OF k1])
  have r2: "storage ?w K_CURRENT_NOTE = storage demo_world K_CURRENT_NOTE"
    by (rule all[rule_format, OF k2])
  have r3: "storage ?w K_TIMER_STATE = Some START" using T by blast
  have r4: "storage ?w K_SESSION_ID = Some JNull" using T by blast
  have r1': "storage ?w K_EXCLUDED_URLS = Some (JArr [JStr ''*example.com*''])"
    by (simp only: r1 b)
  have r2': "storage ?w K_CURRENT_NOTE = Some (JStr ''buy milk'')"
    by (simp only: r2 c)
  show ?thesis
    by (intro conjI a r3 r4 r1' r2')
qed

subsection \<open>The end of the countdown\<close>

lemma clearInterval_fields [simp]:
  "storage (clearInterval c w) = storage w"
  "set_calls (clearInterval c w) = set_calls w"
  "sent_messages (clearInterval c w) = sent_messages w"
  "log_file (clearInterval c w) = log_file w"
  "next_timer_id (clearInterval c w) = next_timer_id w"
  by (simp_all add: clearInterval_def split: option.splits)

lemma clearInterval_timers:
  "timers (clearInterval (Some i) w) j = (if j = i then None else timers w j)"
  by (simp add: clearInterval_def)

lemma tick_expired:
  assumes "timers w i = Some e" "e - now \<le> 0"
  shows "snd (tick E i now (h, w)) = expired_world h w"
proof -
  have ph: "js_or (storage (expired_world h w) K_TIMER_STATE) START = END"
    by (simp add: expired_world_def storage_storage_set js_or_def)
  have "tick E i now (h, w) = updateUI E (h\<lparr>timerDisplay := ''00:00''\<rparr>, expired_world h w)"
    using assms by (simp add: tick_def Let_def expired_world_def)
  then show ?thesis using ph by (simp add: updateUI_end)
qed

lemma tick_cleared: "timers (snd hw) i = None \<Longrightarrow> tick E i now hw = hw"
  by (simp add: tick_def)

lemma expired_world_fields:
  "storage (expired_world h w) = (storage w)(K_TIMER_STATE \<mapsto> END)"
  "set_calls (expired_world h w) = set_calls w @ [[(K_TIMER_STATE, END)]]"
  "sent_messages (expired_world h w) = sent_messages w @ [JObj [(''type'', JStr ''timerFinished'')]]"
  "log_file (expired_world h w) = log_file w"
  "countdownInterval h = Some i \<Longrightarrow> timers (expired_world h w) j = (if j = i then None else timers w j)"
  by (simp_all add: expired_world_def storage_storage_set clearInterval_timers)

text \<open>
  Claim C3. A tick of a live countdown that finds no time left cancels the interval of its
  instance, writes phase END and nothing else to the storage (one call with the one key),
  and sends one \<open>timerFinished\<close> message; the cancelled interval never acts again. When
  the countdown of a second instance then runs out too, its write changes no stored key,
  the phase stays END, the log file is untouched and the only further effect on the shared
  state is the second message.
\<close>

theorem countdown_expiry:
  assumes live1: "timers w i1 = Some e1" and exp1: "e1 - now1 \<le> 0"
    and own1: "countdownInterval h1 = Some i1"
    and live2: "timers w i2 = Some e2" and exp2: "e2 - now2 \<le> 0"
    and own2: "countdownInterval h2 = Some i2"
    and diff: "i1 \<noteq> i2"
  shows "storage (snd (tick E i1 now1 (h1, w))) = (storage w)(K_TIMER_STATE \<mapsto> END) \<and>
     set_calls (snd (tick E i1 now1 (h1, w))) = set_calls w @ [[(K_TIMER_STATE, END)]] \<and>
     sent_messages (snd (tick E i1 now1 (h1, w))) =
       sent_messages w @ [JObj [(''type'', JStr ''timerFinished'')]] \<and>
     timers (snd (tick E i1 now1 (h1, w))) i1 = None \<and>
     tick E i1 later (tick E i1 now1 (h1, w)) = tick E i1 now1 (h1, w) \<and>
     storage (snd (tick E i2 now2 (h2, snd (tick E i1 now1 (h1, w))))) =
       storage (snd (tick E i1 now1 (h1, w))) \<and>
     storage (snd (tick E i2 now2 (h2, snd (tick E i1 now1 (h1, w))))) K_TIMER_STATE = Some END \<and>
     sent_messages (snd (tick E i2 now2 (h2, snd (tick E i1 now1 (h1, w))))) =
       sent_messages w @ [JObj [(''type'', JStr ''timerFinished'')],
                          JObj [(''type'', JStr ''timerFinished'')]] \<and>
     log_file (snd (tick E i2 now2 (h2, snd (tick E i1 now1 (h1, w))))) = log_file w"
proof -
  let ?w1 = "expired_world h1 w"
  have t1: "snd (tick E i1 now1 (h1, w)) = ?w1" by (rule tick_expired[OF live1 exp1])
  have live2': "timers ?w1 i2 = Some e2"
    using live2 diff by (simp add: expired_world_fields(5)[OF own1])
  have t2: "snd (tick E i2 now2 (h2, ?w1)) = expired_world h2 ?w1"
    by (rule tick_expired[OF live2' exp2])
  have gone: "timers ?w1 i1 = None" by (simp add: expired_world_fields(5)[OF own1])
  have once: "tick E i1 later (tick E i1 now1 (h1, w)) = tick E i1 now1 (h1, w)"
    by (rule tick_cleared) (simp add: t1 gone)
  show ?thesis
    unfolding once t1 t2 by (simp add: expired_world_fields(1-4) gone fun_upd_idem_iff)
qed

theorem countdown_expiry_witness:
  "storage demo_running K_TIMER_STATE = Some RUNNING \<and>
   storage (snd (tick demo_env 1 demo_end (demo_home\<lparr>countdownInterval := Some 1\<rparr>, demo_running)))
     K_TIMER_STATE = Some END \<and>
   storage (snd (tick demo_env 2 (demo_end + 1000) (demo_home\<lparr>countdownInterval := Some 2\<rparr>,
      snd (tick demo_env 1 demo_end (demo_home\<lparr>countdownInterval := Some 1\<rparr>, demo_running)))))
     K_TIMER_STATE = Some END \<and>
   sent_messages (snd (tick demo_env 2 (demo_end + 1000) (demo_home\<lparr>countdownInterval := Some 2\<rparr>,
      snd (tick demo_env 1 demo_end (demo_home\<lparr>countdownInterval := Some 1\<rparr>, demo_running))))) =
     [JObj [(''type'', JStr ''timerFinished'')], JObj [(''type'', JStr ''timerFinished'')]]"
proof -
  let ?h1 = "demo_home\<lparr>countdownInterval := Some 1\<rparr>"
  let ?h2 = "demo_home\<lparr>countdownInterval := Some 2\<rparr>"
  have live1: "timers demo_running 1 = Some demo_end" by (simp add: demo_running_def)
  have live2: "timers demo_running 2 = Some demo_end" by (simp add: demo_running_def)
  have exp1: "demo_end - demo_end \<le> 0" by simp
  have exp2: "demo_end - (demo_end + 1000) \<le> 0" by simp
  have own1: "countdownInterval ?h1 = Some 1" by simp
  have own2: "countdownInterval ?h2 = Some 2" by simp
  have diff: "(1::nat) \<noteq> 2" by simp
  note T = countdown_expiry[OF live1 exp1 own1 live2 exp2 own2 diff, of demo_env 0]
  have r0: "storage demo_running K_TIMER_STATE = Some RUNNING" by (simp add: demo_running_def)
  have s1: "storage (snd (tick demo_env 1 demo_end (?h1, demo_running))) =
      (storage demo_running)(K_TIMER_STATE \<mapsto> END)"
    by (rule T[THEN conjunct1])
  have r1: "storage (snd (tick demo_env 1 demo_end (?h1, demo_running))) K_TIMER_STATE = Some END"
    by (simp only: s1 fun_upd_same)
  note T6 = T[THEN conjunct2, THEN conjunct2, THEN conjunct2, THEN conjunct2, THEN conjunct2,
      THEN conjunct2]
  have r2: "storage (snd (tick demo_env 2 (demo_end + 1000) (?h2,
      snd (tick demo_env 1 demo_end (?h1, demo_running))))) K_TIMER_STATE = Some END"
    by (rule T6[THEN conjunct1])
  have m: "sent_messages demo_running = []" by (simp add: demo_running_def demo_world_def)
  have r3: "sent_messages (snd (tick demo_env 2 (demo_end + 1000) (?h2,
      snd (tick demo_env 1 demo_end (?h1, demo_running))))) =
     [JObj [(''type'', JStr ''timerFinished'')], JObj [(''type'', JStr ''timerFinished'')]]"
    using T6[THEN conjunct2, THEN conjunct1] by (simp only: m append_Nil)
  show ?thesis by (intro conjI r0 r1 r2 r3)
qed

subsection \<open>Starting the timer\<close>

lemma startCountdown_valid:
  assumes "newDate E v = Some t"
  shows "startCountdown E v (h, w) =
     (h\<lparr>countdownInterval := Some (Suc (next_timer_id w))\<rparr>,
      (clearInterval (countdownInterval h) w)
        \<lparr>timers := (timers (clearInterval (countdownInterval h) w))(Suc (next_timer_id w) \<mapsto> t),
         next_timer_id := Suc (next_timer_id w)\<rparr>)"
  using assms by (simp add: startCountdown.simps Let_def setInterval_def)

lemma updateUI_running_valid:
  assumes ph: "storage w K_TIMER_STATE = Some RUNNING"
    and dt: "newDate E (storage w K_END_TIME) = Some t"
  shows "countdownInterval (fst (updateUI E (h, w))) = Some (Suc (next_timer_id w))"
    "timers (snd (updateUI E (h, w))) (Suc (next_timer_id w)) = Some t"
    "storage (snd (updateUI E (h, w))) = storage w"
    "set_calls (snd (updateUI E (h, w))) = set_calls w"
    "sent_messages (snd (updateUI E (h, w))) = sent_messages w"
    "log_file (snd (updateUI E (h, w))) = log_file w"
    "next_timer_id (snd (updateUI E (h, w))) = Suc (next_timer_id w)"
proof -
  have r: "js_or (storage (snd (h, w)) K_TIMER_STATE) START = RUNNING"
    using ph by (simp add: js_or_def)
  show "countdownInterval (fst (updateUI E (h, w))) = Some (Suc (next_timer_id w))"
    "timers (snd (updateUI E (h, w))) (Suc (next_timer_id w)) = Some t"
    "storage (snd (updateUI E (h, w))) = storage w"
    "set_calls (snd (updateUI E (h, w))) = set_calls w"
    "sent_messages (snd (updateUI E (h, w))) = sent_messages w"
    "log_file (snd (updateUI E (h, w))) = log_file w"
    "next_timer_id (snd (updateUI E (h, w))) = Suc (next_timer_id w)"
    using dt by (simp_all add: updateUI_running[OF r] startCountdown_valid)
qed




subsection \<open>The installation handler\<close>

lemma handleInstallation_storage:
  "storage (handleInstallation w) =
     (storage w)(K_TIMER_STATE \<mapsto> START, K_END_TIME \<mapsto> JNull, K_DURATION \<mapsto> JNum 0)"
  by (simp add: handleInstallation_def storage_storage_set)

text \<open>Every \<open>onInstalled\<close> event resets the timer state; the start of the browser does not.\<close>

lemma background_dispatch_installed:
  "storage (background_dispatch rid (OnInstalled reason) w) =
     (storage w)(K_TIMER_STATE \<mapsto> START, K_END_TIME \<mapsto> JNull, K_DURATION \<mapsto> JNum 0)"
  "background_dispatch rid OnStartup w = w"
  by (simp_all add: background_dispatch_def handleInstallation_storage)

text \<open>
  Claim C4. The installation handler is registered for \<open>onInstalled\<close> and does not look
  at the reason of the event, so it writes the default timer state on an update of the
  extension as on a fresh install. Here the event of an update arrives while the session
  runs: phase, end time and duration of the running session are overwritten.
\<close>

theorem update_event_resets_running_timer:
  "storage demo_running K_TIMER_STATE = Some RUNNING \<and>
   storage demo_running K_END_TIME = Some (JStr ''2023-11-14T22:38:20.000Z'') \<and>
   storage demo_running K_DURATION = Some (JNum 25) \<and>
   storage (background_dispatch ''abcdefghijklmnopabcdefghijklmnop'' (OnInstalled Update) demo_running)
     K_TIMER_STATE = Some START \<and>
   storage (background_dispatch ''abcdefghijklmnopabcdefghijklmnop'' (OnInstalled Update) demo_running)
     K_END_TIME = Some JNull \<and>
   storage (background_dispatch ''abcdefghijklmnopabcdefghijklmnop'' (OnInstalled Update) demo_running)
     K_DURATION = Some (JNum 0)"
  by (simp add: background_dispatch_installed demo_running_def demo_world_def)

subsection \<open>An end time that is no date\<close>

lemma startCountdown_invalid:
  "newDate E v = None \<Longrightarrow>
   startCountdown E v hw =
     resetToStartState E
       (showError ''An error occurred with the timer. Please start a new session.'' (fst hw),
        log_error ''Invalid endTime received from storage:'' None (snd hw))"
  by (simp add: startCountdown.simps)

lemma loadLogs_error_region:
  "errorHidden (fst (loadLogs E hw)) \<or>
   errorMessage (fst (loadLogs E hw)) = ''Could not load the log file. It may have been moved or deleted.'' \<or>
   errorMessage (fst (loadLogs E hw)) = ''Permission to read the log file has been denied.''"
  by (auto simp: loadLogs_def Let_def hideError_def showError_def
      split: permission.splits sum.splits option.splits)

text \<open>
  Once the reset that \<open>startCountdown\<close> forces has completed, the message about the timer
  is not on display: the completion of the reset reloads the logs, which hides the error
  region (or shows a message of its own).
\<close>

lemma timer_error_not_on_display:
  assumes "newDate E v = None"
  shows "errorHidden (fst (startCountdown E v hw)) \<or>
     errorMessage (fst (startCountdown E v hw)) \<noteq>
       ''An error occurred with the timer. Please start a new session.''"
proof -
  obtain hw' where eq: "startCountdown E v hw = loadLogs E hw'"
    by (simp add: startCountdown_invalid[OF assms] resetToStartState_eq)
  from loadLogs_error_region[of E hw'] show ?thesis
  proof (elim disjE)
    assume "errorHidden (fst (loadLogs E hw'))"
    then show ?thesis by (simp add: eq)
  next
    assume "errorMessage (fst (loadLogs E hw')) =
      ''Could not load the log file. It may have been moved or deleted.''"
    then show ?thesis by (simp add: eq)
  next
    assume "errorMessage (fst (loadLogs E hw')) =
      ''Permission to read the log file has been denied.''"
    then show ?thesis by (simp add: eq)
  qed
qed

lemma loadLogs_blank:
  assumes "fileHandle h" "queryPermission Read w = Granted" "log_file w = Some c" "trim c = []"
  shows "loadLogs E (h, w) =
     ((hideError (h\<lparr>logContainer := Blank\<rparr>))\<lparr>logContainer := Message ''No entries logged yet.''\<rparr>, w)"
  using assms by (simp add: loadLogs_def Let_def hideError_def read_entries_def file_text_def)

text \<open>
  Claim C9. In phase RUNNING with a stored end time that is no date, drawing the page
  forces phase START and starts no countdown, but the error message is shown only until
  the reset completes: its callback reloads the logs, and \<open>loadLogs\<close> begins by hiding
  the error region. At the end the region is hidden.
\<close>

theorem invalid_end_time_error_hidden:
  "storage demo_broken K_TIMER_STATE = Some RUNNING \<and>
   newDate demo_env (storage demo_broken K_END_TIME) = None \<and>
   errorHidden (fst (updateUI demo_env (demo_home, demo_broken))) \<and>
   storage (snd (updateUI demo_env (demo_home, demo_broken))) K_TIMER_STATE = Some START \<and>
   countdownInterval (fst (updateUI demo_env (demo_home, demo_broken))) = None"
proof -
  have ph: "storage demo_broken K_TIMER_STATE = Some RUNNING"
    by (simp add: demo_broken_def demo_running_def)
  have et: "storage demo_broken K_END_TIME = Some (JStr ''not-a-date'')"
    by (simp add: demo_broken_def)
  have nd: "newDate demo_env (storage demo_broken K_END_TIME) = None"
    unfolding et by (simp add: demo_env_def demo_newDate_def)
  have r: "js_or (storage (snd (demo_home, demo_broken)) K_TIMER_STATE) START = RUNNING"
    using ph by (simp add: js_or_def)
  let ?h = "(validateSummary
       ((showError ''An error occurred with the timer. Please start a new session.''
          (demo_home\<lparr>noteInput := '''', startHidden := True, endHidden := True,
              summaryHidden := True, runningHidden := False\<rparr>))\<lparr>summaryInput := ''''\<rparr>))
          \<lparr>noteInput := '''', startHidden := False, runningHidden := True, endHidden := True,
           summaryHidden := True\<rparr>"
  let ?w = "storage_set
          [(K_TIMER_STATE, START), (K_END_TIME, JNull), (K_DURATION, JNum 0),
           (K_SESSION_ID, JNull), (K_CURRENT_SUMMARY, JStr '''')]
          (log_error ''Invalid endTime received from storage:'' None demo_broken)"
  have u: "updateUI demo_env (demo_home, demo_broken) = loadLogs demo_env (?h, ?w)"
    using nd by (simp add: updateUI_running[OF r] startCountdown_invalid resetToStartState_eq)
  have fh: "fileHandle ?h" by (simp add: showError_def demo_home_def)
  have qp: "queryPermission Read ?w = Granted"
    by (simp add: queryPermission_def demo_broken_def demo_running_def demo_world_def)
  have lf: "log_file ?w = Some []"
    by (simp add: demo_broken_def demo_running_def demo_world_def)
  have tr: "trim [] = []" by (simp add: trim_def)
  note L = loadLogs_blank[OF fh qp lf tr, of demo_env]
  have e: "errorHidden (fst (updateUI demo_env (demo_home, demo_broken)))"
    unfolding u L by (simp add: hideError_def)
  have s: "storage (snd (updateUI demo_env (demo_home, demo_broken))) K_TIMER_STATE = Some START"
    unfolding u L by (simp add: storage_storage_set)
  have c: "countdownInterval (fst (updateUI demo_env (demo_home, demo_broken))) = None"
    unfolding u L by (simp add: hideError_def showError_def demo_home_def)
  show ?thesis by (intro conjI ph nd e s c)
qed

text \<open>What the recovery does achieve: phase START, the session cleared, no countdown.\<close>

lemma invalid_end_time_forces_start:
  assumes ph: "storage w K_TIMER_STATE = Some RUNNING"
    and nd: "newDate E (storage w K_END_TIME) = None"
  shows "storage (snd (updateUI E (h, w))) =
      (storage w)(K_TIMER_STATE \<mapsto> START, K_END_TIME \<mapsto> JNull, K_DURATION \<mapsto> JNum 0,
                  K_SESSION_ID \<mapsto> JNull, K_CURRENT_SUMMARY \<mapsto> JStr '''')"
    and "timers (snd (updateUI E (h, w))) = timers w"
    and "countdownInterval (fst (updateUI E (h, w))) = countdownInterval h"
proof -
  have r: "js_or (storage (snd (h, w)) K_TIMER_STATE) START = RUNNING"
    using ph by (simp add: js_or_def)
  have u: "updateUI E (h, w) =
      resetToStartState E
       (showError ''An error occurred with the timer. Please start a new session.''
          (h\<lparr>noteInput := '''', startHidden := True, endHidden := True,
              summaryHidden := True, runningHidden := False\<rparr>),
        log_error ''Invalid endTime received from storage:'' None w)"
    using nd by (simp add: updateUI_running[OF r] startCountdown_invalid)
  show "storage (snd (updateUI E (h, w))) =
      (storage w)(K_TIMER_STATE \<mapsto> START, K_END_TIME \<mapsto> JNull, K_DURATION \<mapsto> JNum 0,
                  K_SESSION_ID \<mapsto> JNull, K_CURRENT_SUMMARY \<mapsto> JStr '''')"
    unfolding u by (simp add: reset_storage)
  show "timers (snd (updateUI E (h, w))) = timers w"
    unfolding u by (simp add: resetToStartState_eq)
  show "countdownInterval (fst (updateUI E (h, w))) = countdownInterval h"
    unfolding u by (simp add: resetToStartState_eq showError_def)
qed

subsection \<open>Editing a log entry\<close>

lemma findIndex_none:
  "JNull \<notin> set es \<Longrightarrow> \<forall>e\<in>set es. get_prop e ''sessionId'' \<noteq> Some (JStr s) \<Longrightarrow>
   findIndex_sessionId s es = Inr None"
  by (induction es) auto

lemma findIndex_first:
  "JNull \<notin> set es \<Longrightarrow> i < length es \<Longrightarrow> get_prop (es ! i) ''sessionId'' = Some (JStr s) \<Longrightarrow>
   \<forall>j<i. get_prop (es ! j) ''sessionId'' \<noteq> Some (JStr s) \<Longrightarrow>
   findIndex_sessionId s es = Inr (Some i)"
proof (induction es arbitrary: i)
  case Nil
  then show ?case by simp
next
  case (Cons e es)
  show ?case
  proof (cases i)
    case 0
    then show ?thesis using Cons.prems by auto
  next
    case (Suc k)
    have ne: "get_prop e ''sessionId'' \<noteq> Some (JStr s)" using Cons.prems(4) Suc by auto
    have "\<forall>j<k. get_prop (es ! j) ''sessionId'' \<noteq> Some (JStr s)"
      using Cons.prems(4) Suc by auto
    then have "findIndex_sessionId s es = Inr (Some k)"
      using Cons.IH[of k] Cons.prems Suc by simp
    then show ?thesis using ne Cons.prems(1) Suc by auto
  qed
qed

lemma map_of_assign_alist:
  "map_of (assign_alist k v kvs) k' = (if k' = k then Some v else map_of kvs k')"
  by (induction kvs) auto

lemma keys_assign_alist:
  "map fst (assign_alist k v kvs) = (if k \<in> fst ` set kvs then map fst kvs else map fst kvs @ [k])"
  by (induction kvs) auto

lemma objects_not_null: "\<forall>e\<in>set es. \<exists>props. e = JObj props \<Longrightarrow> JNull \<notin> set es"
  by auto

lemma update_try_found:
  assumes fh: "fileHandle h" and perm: "perm_readwrite w = Granted"
    and fc: "log_file w = Some content"
    and parsed: "parse_lines E content = Some entries"
    and nn: "JNull \<notin> set entries"
    and i: "i < length entries" and obj: "entries ! i = JObj props"
    and sid: "map_of props ''sessionId'' = Some (JStr s)"
    and first: "\<forall>j<i. get_prop (entries ! j) ''sessionId'' \<noteq> Some (JStr s)"
  shows "update_try E s t (h, w) =
     Inr (w\<lparr>log_file := Some (join_lines (map (json_stringify E)
            (entries[i := JObj (assign_alist ''summary_text'' (JStr t) props)])))\<rparr>)"
proof -
  have ft: "file_text w = Inr content"
    using perm fc by (simp add: file_text_def queryPermission_def)
  have fi: "findIndex_sessionId s entries = Inr (Some i)"
    using findIndex_first[OF nn i _ first] obj sid by simp
  show ?thesis
    using fh perm by (simp add: update_try_def ft parsed fi obj file_write_def queryPermission_def)
qed

lemma update_try_missing:
  assumes fh: "fileHandle h" and perm: "perm_readwrite w = Granted"
    and fc: "log_file w = Some content"
    and parsed: "parse_lines E content = Some entries"
    and nn: "JNull \<notin> set entries"
    and none: "\<forall>e\<in>set entries. get_prop e ''sessionId'' \<noteq> Some (JStr s)"
  shows "update_try E s t (h, w) = Inl (Error ''Log entry not found.'')"
proof -
  have ft: "file_text w = Inr content"
    using perm fc by (simp add: file_text_def queryPermission_def)
  show ?thesis
    using fh by (simp add: update_try_def ft parsed findIndex_none[OF nn none])
qed

text \<open>
  Claim C5. The handle is bound and may be written, and every line of the (trimmed) file
  parses to a JSON object. When some entry has the session identifier asked for, the file
  is rewritten as the JSON lines of the entries, with the first such entry carrying the
  new \<open>summary_text\<close> and its other properties as they were, and all other entries as
  parsed. When no entry has it, the update fails with the error "Log entry not found.",
  which is logged and shown as an update error, and the file keeps its content.
\<close>

theorem updateLogEntry_spec:
  assumes fh: "fileHandle h" and perm: "perm_readwrite w = Granted"
    and fc: "log_file w = Some content"
    and parsed: "parse_lines E content = Some entries"
    and objs: "\<forall>e\<in>set entries. \<exists>props. e = JObj props"
  shows "(\<forall>i props.
        i < length entries \<and> entries ! i = JObj props \<and>
        map_of props ''sessionId'' = Some (JStr s) \<and>
        (\<forall>j<i. get_prop (entries ! j) ''sessionId'' \<noteq> Some (JStr s)) \<longrightarrow>
          log_file (snd (updateLogEntry E s t (h, w))) =
            Some (join_lines (map (json_stringify E)
              (entries[i := JObj (assign_alist ''summary_text'' (JStr t) props)]))) \<and>
          map_of (assign_alist ''summary_text'' (JStr t) props) ''summary_text'' = Some (JStr t) \<and>
          (\<forall>k. k \<noteq> ''summary_text'' \<longrightarrow>
              map_of (assign_alist ''summary_text'' (JStr t) props) k = map_of props k) \<and>
          fst (updateLogEntry E s t (h, w)) = h) \<and>
     ((\<forall>e\<in>set entries. get_prop e ''sessionId'' \<noteq> Some (JStr s)) \<longrightarrow>
          update_try E s t (h, w) = Inl (Error ''Log entry not found.'') \<and>
          snd (updateLogEntry E s t (h, w)) =
            log_error ''Error updating log:'' (Some (Error ''Log entry not found.'')) w \<and>
          log_file (snd (updateLogEntry E s t (h, w))) = Some content \<and>
          fst (updateLogEntry E s t (h, w)) = showError ''Could not update the log file.'' h)"
proof -
  have nn: "JNull \<notin> set entries" using objs by auto
  have found: "\<And>i props. i < length entries \<Longrightarrow> entries ! i = JObj props \<Longrightarrow>
        map_of props ''sessionId'' = Some (JStr s) \<Longrightarrow>
        (\<forall>j<i. get_prop (entries ! j) ''sessionId'' \<noteq> Some (JStr s)) \<Longrightarrow>
          log_file (snd (updateLogEntry E s t (h, w))) =
            Some (join_lines (map (json_stringify E)
              (entries[i := JObj (assign_alist ''summary_text'' (JStr t) props)]))) \<and>
          fst (updateLogEntry E s t (h, w)) = h"
    by (simp add: updateLogEntry_def update_try_found[OF fh perm fc parsed nn])
  have missing: "(\<forall>e\<in>set entries. get_prop e ''sessionId'' \<noteq> Some (JStr s)) \<Longrightarrow>
          update_try E s t (h, w) = Inl (Error ''Log entry not found.'') \<and>
          snd (updateLogEntry E s t (h, w)) =
            log_error ''Error updating log:'' (Some (Error ''Log entry not found.'')) w \<and>
          log_file (snd (updateLogEntry E s t (h, w))) = Some content \<and>
          fst (updateLogEntry E s t (h, w)) = showError ''Could not update the log file.'' h"
    using fc by (simp add: updateLogEntry_def update_try_missing[OF fh perm fc parsed nn])
  show ?thesis
    apply (intro conjI allI impI)
         apply (elim conjE, drule (3) found, erule conjunct1)
        apply (simp add: map_of_assign_alist)
       apply (simp add: map_of_assign_alist)
      apply (elim conjE, drule (3) found, erule conjunct2)
     apply (drule missing, erule conjunct1)
    apply (drule missing, elim conjE, assumption)
   apply (drule missing, elim conjE, assumption)
  apply (drule missing, elim conjE, assumption)
  done
qed

lemma demo_parse_log:
  "parse_lines demo_env demo_log = Some [demo_session ''wrote the parser'', demo_note]"
  by code_simp

theorem updateLogEntry_spec_witness:
  "parse_lines demo_env demo_log = Some [demo_session ''wrote the parser'', demo_note] \<and>
   log_file (snd (updateLogEntry demo_env ''s-1'' ''revised'' (demo_home, demo_logged))) =
     Some (demo_session_line ''revised'' @ [CHR 0x0A] @ demo_note_line) \<and>
   update_try demo_env ''n-9'' ''revised'' (demo_home, demo_logged) =
     Inl (Error ''Log entry not found.'') \<and>
   log_file (snd (updateLogEntry demo_env ''n-9'' ''revised'' (demo_home, demo_logged))) =
     Some demo_log"
proof -
  let ?es = "[demo_session ''wrote the parser'', demo_note]"
  let ?props = "[(''type'', JStr ''session''), (''sessionId'', JStr ''s-1''),
           (''start_time'', JStr ''2023-11-14T22:13:20.000Z''),
           (''end_time'', JStr ''2023-11-14T22:38:20.000Z''),
           (''duration'', JNum 25), (''summary_text'', JStr ''wrote the parser'')]"
  have fh: "fileHandle demo_home" by (simp add: demo_home_def)
  have perm: "perm_readwrite demo_logged = Granted"
    by (simp add: demo_logged_def demo_idle_def demo_world_def)
  have fc: "log_file demo_logged = Some demo_log" by (simp add: demo_logged_def)
  have objs: "\<forall>e\<in>set ?es. \<exists>props. e = JObj props"
    by (simp add: demo_session_def demo_note_def)
  note T = updateLogEntry_spec[OF fh perm fc demo_parse_log objs]
  have i0: "(0::nat) < length ?es" by simp
  have e0: "?es ! 0 = JObj ?props" by (simp add: demo_session_def)
  have sid: "map_of ?props ''sessionId'' = Some (JStr ''s-1'')" by simp
  have first: "\<forall>j<(0::nat). get_prop (?es ! j) ''sessionId'' \<noteq> Some (JStr ''s-1'')" by simp
  have found: "log_file (snd (updateLogEntry demo_env ''s-1'' ''revised'' (demo_home, demo_logged))) =
      Some (join_lines (map (json_stringify demo_env)
              (?es[0 := JObj (assign_alist ''summary_text'' (JStr ''revised'') ?props)])))"
  proof -
    have hyp: "0 < length ?es \<and> ?es ! 0 = JObj ?props \<and>
        map_of ?props ''sessionId'' = Some (JStr ''s-1'') \<and>
        (\<forall>j<(0::nat). get_prop (?es ! j) ''sessionId'' \<noteq> Some (JStr ''s-1''))"
      by (intro conjI i0 e0 sid first)
    show ?thesis
      by (rule T[of "''s-1''" "''revised''", THEN conjunct1, rule_format, of 0 ?props,
            OF hyp, THEN conjunct1])
  qed
  have ev: "join_lines (map (json_stringify demo_env)
              (?es[0 := JObj (assign_alist ''summary_text'' (JStr ''revised'') ?props)])) =
      demo_session_line ''revised'' @ [CHR 0x0A] @ demo_note_line"
    by code_simp
  have none: "\<forall>e\<in>set ?es. get_prop e ''sessionId'' \<noteq> Some (JStr ''n-9'')"
    by (simp add: demo_session_def demo_note_def)
  note M = T[of "''n-9''" "''revised''", THEN conjunct2, THEN mp, OF none]
  have m1: "update_try demo_env ''n-9'' ''revised'' (demo_home, demo_logged) =
     Inl (Error ''Log entry not found.'')"
    by (rule M[THEN conjunct1])
  have m2: "log_file (snd (updateLogEntry demo_env ''n-9'' ''revised'' (demo_home, demo_logged))) =
     Some demo_log"
    by (rule M[THEN conjunct2, THEN conjunct2, THEN conjunct1])
  show ?thesis
    by (intro conjI demo_parse_log m1 m2) (simp only: found ev)
qed

subsection \<open>Appending to the log and reading it\<close>

lemma append_granted:
  assumes "fileHandle h" "perm_readwrite w = Granted" "log_file w = Some old"
  shows "appendLogToFile E e (h, w) =
     (h, w\<lparr>log_file := Some (old @ (if old \<noteq> [] then [CHR 0x0A] else []) @ json_stringify E e)\<rparr>)"
  using assms
  by (simp add: appendLogToFile_def append_write_def file_text_def file_write_def
      queryPermission_def Let_def)

lemma join_lines_snoc:
  "join_lines (ls @ [l]) = (if ls = [] then l else join_lines ls @ [CHR 0x0A] @ l)"
  by (induction ls rule: join_lines.induct) auto

lemma join_lines_nonempty: "ls \<noteq> [] \<Longrightarrow> \<forall>l\<in>set ls. l \<noteq> [] \<Longrightarrow> join_lines ls \<noteq> []"
  by (induction ls rule: join_lines.induct) auto

lemma join_lines_empty_iff: "\<forall>l\<in>set ls. l \<noteq> [] \<Longrightarrow> (join_lines ls = []) = (ls = [])"
  using join_lines_nonempty by (cases ls) auto

lemma fold_append:
  assumes "fileHandle h"
  shows "perm_readwrite w = Granted \<Longrightarrow>
     log_file w = Some (join_lines (map (json_stringify E) pre)) \<Longrightarrow>
     \<forall>e\<in>set (pre @ es). json_stringify E e \<noteq> [] \<Longrightarrow>
     fold (appendLogToFile E) es (h, w) =
       (h, w\<lparr>log_file := Some (join_lines (map (json_stringify E) (pre @ es)))\<rparr>)"
proof (induction es arbitrary: pre w)
  case Nil
  then show ?case by simp
next
  case (Cons e es)
  let ?old = "join_lines (map (json_stringify E) pre)"
  let ?w1 = "w\<lparr>log_file := Some (join_lines (map (json_stringify E) (pre @ [e])))\<rparr>"
  have ne: "(?old = []) = (pre = [])"
    using Cons.prems(3) by (subst join_lines_empty_iff) auto
  have step: "appendLogToFile E e (h, w) = (h, ?w1)"
    using ne by (simp add: append_granted[OF assms Cons.prems(1) Cons.prems(2)] join_lines_snoc)
  have "fold (appendLogToFile E) es (h, ?w1) =
      (h, ?w1\<lparr>log_file := Some (join_lines (map (json_stringify E) ((pre @ [e]) @ es)))\<rparr>)"
    using Cons.prems by (intro Cons.IH) auto
  then show ?case using step by simp
qed

lemma split_lines_acc_line:
  "CHR 0x0A \<notin> set l \<Longrightarrow> split_lines_acc acc l = [rev acc @ l]"
  by (induction l arbitrary: acc) auto

lemma split_lines_acc_append:
  "CHR 0x0A \<notin> set l \<Longrightarrow>
   split_lines_acc acc (l @ CHR 0x0A # rest) = (rev acc @ l) # split_lines_acc [] rest"
  by (induction l arbitrary: acc) auto

lemma split_join_lines:
  "ls \<noteq> [] \<Longrightarrow> \<forall>l\<in>set ls. CHR 0x0A \<notin> set l \<Longrightarrow> split_lines (join_lines ls) = ls"
proof (induction ls rule: join_lines.induct)
  case 1
  then show ?case by simp
next
  case (2 l)
  then show ?case by (simp add: split_lines_def split_lines_acc_line)
next
  case (3 l m ls)
  then show ?case by (simp add: split_lines_def split_lines_acc_append)
qed

lemma hd_join_lines: "ls \<noteq> [] \<Longrightarrow> hd ls \<noteq> [] \<Longrightarrow> hd (join_lines ls) = hd (hd ls)"
  by (cases ls rule: join_lines.cases) auto

lemma join_lines_last_nonempty: "ls \<noteq> [] \<Longrightarrow> last ls \<noteq> [] \<Longrightarrow> join_lines ls \<noteq> []"
  by (induction ls rule: join_lines.induct) auto

lemma last_join_lines: "ls \<noteq> [] \<Longrightarrow> last ls \<noteq> [] \<Longrightarrow> last (join_lines ls) = last (last ls)"
proof (induction ls rule: join_lines.induct)
  case 1
  then show ?case by simp
next
  case (2 l)
  then show ?case by simp
next
  case (3 l m ls)
  have "join_lines (m # ls) \<noteq> []" using 3 by (intro join_lines_last_nonempty) auto
  then show ?case using 3 by simp
qed

lemma trim_id: "s \<noteq> [] \<Longrightarrow> \<not> js_space (hd s) \<Longrightarrow> \<not> js_space (last s) \<Longrightarrow> trim s = s"
proof -
  assume a: "s \<noteq> []" "\<not> js_space (hd s)" "\<not> js_space (last s)"
  have 1: "dropWhile js_space s = s" using a by (cases s) auto
  have 2: "dropWhile js_space (rev s) = rev s" using a by (cases s rule: rev_cases) auto
  show ?thesis by (simp add: trim_def 1 2)
qed

lemma those_map_Some: "\<forall>x\<in>set xs. f (g x) = Some x \<Longrightarrow> those (map f (map g xs)) = Some xs"
  by (induction xs) auto

lemma parse_lines_log:
  assumes "es \<noteq> []" "\<forall>e\<in>set es. serialisable E e"
  shows "trim (join_lines (map (json_stringify E) es)) \<noteq> []"
    and "parse_lines E (join_lines (map (json_stringify E) es)) = Some es"
proof -
  let ?ls = "map (json_stringify E) es"
  have ne: "?ls \<noteq> []" using assms(1) by simp
  have nonempty: "\<forall>l\<in>set ?ls. l \<noteq> []" using assms(2) by (auto simp: serialisable_def)
  have nolf: "\<forall>l\<in>set ?ls. CHR 0x0A \<notin> set l" using assms(2) by (auto simp: serialisable_def)
  have h: "hd ?ls \<noteq> []" "\<not> js_space (hd (hd ?ls))"
    using assms by (auto simp: serialisable_def hd_map)
  have l: "last ?ls \<noteq> []" "\<not> js_space (last (last ?ls))"
    using assms by (auto simp: serialisable_def last_map)
  have j: "join_lines ?ls \<noteq> []" by (rule join_lines_nonempty[OF ne nonempty])
  have t: "trim (join_lines ?ls) = join_lines ?ls"
    using h l by (intro trim_id[OF j]) (simp_all add: hd_join_lines[OF ne] last_join_lines[OF ne])
  show "trim (join_lines ?ls) \<noteq> []" using t j by simp
  have "those (map (json_parse E) ?ls) = Some es"
    using assms(2) by (intro those_map_Some) (auto simp: serialisable_def)
  then show "parse_lines E (join_lines ?ls) = Some es"
    by (simp add: parse_lines_def t split_join_lines[OF ne nolf])
qed

lemma mset_insert_sorted: "mset (insert_sorted cmp x ys) = add_mset x (mset ys)"
  by (induction ys) auto

lemma mset_js_sort: "mset (js_sort cmp xs) = mset xs"
  by (induction xs) (auto simp: js_sort_def mset_insert_sorted)

lemma set_insert_sorted: "set (insert_sorted cmp x ys) = insert x (set ys)"
  by (induction ys) auto

lemma compare_valid:
  "newDate E (get_prop a ''end_time'') \<noteq> None \<Longrightarrow> newDate E (get_prop b ''end_time'') \<noteq> None \<Longrightarrow>
   compare_end_time E a b = end_time_ms E b - end_time_ms E a"
  by (auto simp: compare_end_time_def end_time_ms_def)

lemma sorted_insert_sorted:
  assumes "\<forall>a\<in>set (x # ys). \<forall>b\<in>set (x # ys). cmp a b = t b - t a"
    and "sorted_wrt (\<lambda>a b. t a \<ge> t b) ys"
  shows "sorted_wrt (\<lambda>a b. t a \<ge> (t b :: int)) (insert_sorted cmp x ys)"
  using assms
proof (induction ys)
  case Nil
  then show ?case by simp
next
  case (Cons y ys)
  show ?case
  proof (cases "cmp x y \<le> 0")
    case True
    then have "t y \<le> t x" using Cons.prems(1) by simp
    then show ?thesis using True Cons.prems(2) by auto
  next
    case False
    then have "t x \<le> t y" using Cons.prems(1) by simp
    moreover have "sorted_wrt (\<lambda>a b. t a \<ge> t b) (insert_sorted cmp x ys)"
      using Cons.prems by (intro Cons.IH) auto
    ultimately show ?thesis using False Cons.prems(2) by (auto simp: set_insert_sorted)
  qed
qed

lemma sorted_js_sort:
  assumes "\<forall>a\<in>set xs. \<forall>b\<in>set xs. cmp a b = t b - t a"
  shows "sorted_wrt (\<lambda>a b. t a \<ge> (t b :: int)) (js_sort cmp xs)"
  using assms
proof (induction xs)
  case Nil
  then show ?case by (simp add: js_sort_def)
next
  case (Cons x xs)
  have s: "sorted_wrt (\<lambda>a b. t a \<ge> t b) (js_sort cmp xs)" using Cons by auto
  have st: "set (js_sort cmp xs) = set xs" by (metis mset_js_sort set_mset_mset)
  have "sorted_wrt (\<lambda>a b. t a \<ge> t b) (insert_sorted cmp x (js_sort cmp xs))"
    using Cons.prems by (intro sorted_insert_sorted s) (simp add: st)
  then show ?case by (simp add: js_sort_def)
qed

lemma loadLogs_after_appends:
  assumes fh: "fileHandle h" and perm: "perm_readwrite w = Granted"
    and ser: "\<forall>e\<in>set es. is_object e \<and> serialisable E e"
  shows "logContainer (fst (loadLogs E
            (h, w\<lparr>log_file := Some (join_lines (map (json_stringify E) es))\<rparr>))) =
         (if es = [] then Message ''No entries logged yet.''
          else Rendered (js_sort (compare_end_time E) es))"
    and "errorHidden (fst (loadLogs E
            (h, w\<lparr>log_file := Some (join_lines (map (json_stringify E) es))\<rparr>)))"
proof -
  let ?c = "join_lines (map (json_stringify E) es)"
  let ?w = "w\<lparr>log_file := Some ?c\<rparr>"
  have qp: "queryPermission Read ?w = Granted" using perm by (simp add: queryPermission_def)
  have ft: "file_text ?w = Inr ?c" using perm by (simp add: file_text_def queryPermission_def)
  have nn: "JNull \<notin> set es" using ser by (auto simp: is_object_def)
  have re: "read_entries E ?w =
      (if es = [] then Inr None else Inr (Some (js_sort (compare_end_time E) es)))"
  proof (cases "es = []")
    case True
    then show ?thesis using ft by (simp add: read_entries_def trim_def)
  next
    case False
    have s: "\<forall>e\<in>set es. serialisable E e" using ser by simp
    show ?thesis
      using False nn
      by (simp add: read_entries_def ft parse_lines_log[OF False s])
  qed
  show "logContainer (fst (loadLogs E (h, ?w))) =
         (if es = [] then Message ''No entries logged yet.''
          else Rendered (js_sort (compare_end_time E) es))"
    using fh by (simp add: loadLogs_def Let_def hideError_def qp re)
  show "errorHidden (fst (loadLogs E (h, ?w)))"
    using fh by (simp add: loadLogs_def Let_def hideError_def qp re)
qed

text \<open>
  Claim C6. The handle is bound, may be written, and names an empty file; the entries
  are objects whose JSON text the platform parses back, with an \<open>end_time\<close> that is a
  date. After appending them one after the other the file holds their JSON texts, one per
  line, separated by single line feeds. \<open>loadLogs\<close> then shows exactly these entries (none
  for an empty list): as many as were appended, the same entries, ordered by \<open>end_time\<close>
  with the most recent first, and no error.
\<close>

theorem append_then_readAll:
  assumes fh: "fileHandle h" and perm: "perm_readwrite w = Granted"
    and empty: "log_file w = Some []"
    and ser: "\<forall>e\<in>set es. is_object e \<and> serialisable E e"
    and dates: "\<forall>e\<in>set es. newDate E (get_prop e ''end_time'') \<noteq> None"
  shows "\<exists>shown.
     log_file (snd (fold (appendLogToFile E) es (h, w))) =
       Some (join_lines (map (json_stringify E) es)) \<and>
     shown_entries (logContainer (fst (loadLogs E (fold (appendLogToFile E) es (h, w))))) = shown \<and>
     errorHidden (fst (loadLogs E (fold (appendLogToFile E) es (h, w)))) \<and>
     shown = js_sort (compare_end_time E) es \<and>
     length shown = length es \<and>
     mset shown = mset es \<and>
     sorted_wrt (\<lambda>a b. end_time_ms E a \<ge> end_time_ms E b) shown"
proof -
  let ?c = "join_lines (map (json_stringify E) es)"
  have e0: "log_file w = Some (join_lines (map (json_stringify E) []))" using empty by simp
  have nonempty: "\<forall>e\<in>set ([] @ es). json_stringify E e \<noteq> []"
    using ser by (auto simp: serialisable_def)
  have f: "fold (appendLogToFile E) es (h, w) = (h, w\<lparr>log_file := Some ?c\<rparr>)"
    using fold_append[OF fh perm e0 nonempty] by simp
  have cmp: "\<forall>a\<in>set es. \<forall>b\<in>set es.
      compare_end_time E a b = end_time_ms E b - end_time_ms E a"
    using dates by (auto simp: compare_valid)
  have 1: "log_file (snd (fold (appendLogToFile E) es (h, w))) = Some ?c" by (simp add: f)
  have 2: "shown_entries (logContainer (fst (loadLogs E (fold (appendLogToFile E) es (h, w))))) =
      js_sort (compare_end_time E) es"
    by (simp add: f loadLogs_after_appends(1)[OF fh perm ser] shown_entries_def js_sort_def)
  have 3: "errorHidden (fst (loadLogs E (fold (appendLogToFile E) es (h, w))))"
    by (simp add: f loadLogs_after_appends(2)[OF fh perm ser])
  have 4: "length (js_sort (compare_end_time E) es) = length es"
    by (metis mset_js_sort size_mset)
  have 5: "mset (js_sort (compare_end_time E) es) = mset es" by (rule mset_js_sort)
  have 6: "sorted_wrt (\<lambda>a b. end_time_ms E a \<ge> end_time_ms E b) (js_sort (compare_end_time E) es)"
    by (rule sorted_js_sort[OF cmp])
  from 1 2 3 4 5 6 show ?thesis by blast
qed

lemma demo_serialisable:
  "serialisable demo_env (demo_session ''wrote the parser'')" "serialisable demo_env demo_note"
  by (code_simp, code_simp)

theorem append_then_readAll_witness:
  "log_file demo_idle = Some [] \<and>
   log_file (snd (fold (appendLogToFile demo_env) [demo_session ''wrote the parser'', demo_note]
      (demo_home, demo_idle))) = Some demo_log \<and>
   shown_entries (logContainer (fst (loadLogs demo_env
      (fold (appendLogToFile demo_env) [demo_session ''wrote the parser'', demo_note]
      (demo_home, demo_idle))))) = [demo_note, demo_session ''wrote the parser'']"
proof -
  let ?es = "[demo_session ''wrote the parser'', demo_note]"
  have fh: "fileHandle demo_home" by (simp add: demo_home_def)
  have perm: "perm_readwrite demo_idle = Granted" by (simp add: demo_idle_def demo_world_def)
  have empty: "log_file demo_idle = Some []" by (simp add: demo_idle_def demo_world_def)
  have ser: "\<forall>e\<in>set ?es. is_object e \<and> serialisable demo_env e"
  proof -
    have "is_object (demo_session ''wrote the parser'')" "is_object demo_note"
      by (simp_all add: is_object_def demo_session_def demo_note_def)
    then show ?thesis using demo_serialisable by simp
  qed
  have dates: "\<forall>e\<in>set ?es. newDate demo_env (get_prop e ''end_time'') \<noteq> None"
    by (simp add: demo_env_def demo_newDate_def demo_session_def demo_note_def)
  from append_then_readAll[OF fh perm empty ser dates]
  obtain shown where
    a: "log_file (snd (fold (appendLogToFile demo_env) ?es (demo_home, demo_idle))) =
       Some (join_lines (map (json_stringify demo_env) ?es))"
    and b: "shown_entries (logContainer (fst (loadLogs demo_env
         (fold (appendLogToFile demo_env) ?es (demo_home, demo_idle))))) = shown"
    and c: "shown = js_sort (compare_end_time demo_env) ?es"
    by blast
  have ev1: "join_lines (map (json_stringify demo_env) ?es) = demo_log" by code_simp
  have ev2: "js_sort (compare_end_time demo_env) ?es = [demo_note, demo_session ''wrote the parser'']"
    by code_simp
  show ?thesis
    by (intro conjI empty) (simp_all only: a b c ev1 ev2)
qed

text \<open>
  \<open>loadLogs\<close> trims the content as a whole and does not skip an empty line inside it: the
  line goes to \<open>JSON.parse\<close>, which rejects it, and nothing is shown but the error.
\<close>

lemma empty_line_is_a_parse_fault:
  "parse_lines demo_env
     (demo_session_line ''wrote the parser'' @ [CHR 0x0A, CHR 0x0A] @ demo_note_line) = None"
  by code_simp

subsection \<open>Logging a session\<close>

lemma append_catch_storage [simp]: "storage (snd (append_catch err hw)) = storage (snd hw)"
  by (simp add: append_catch_def Let_def)

lemma append_write_storage [simp]: "storage (snd (append_write E e hw)) = storage (snd hw)"
  by (auto simp: append_write_def Let_def file_write_def split: sum.splits)

lemma appendLogToFile_storage [simp]:
  "storage (snd (appendLogToFile E e hw)) = storage (snd hw)"
  by (auto simp: appendLogToFile_def showSaveFilePicker_def requestPermission_def Let_def
      split: sum.splits permission.splits access_mode.splits if_splits prod.splits)

lemma saveLog_blank: "trim (summaryInput h) = [] \<Longrightarrow> saveLog E (h, w) = Inr (h, w)"
  by (simp add: saveLog_def)

lemma saveLog_proceeds:
  assumes "trim (summaryInput h) \<noteq> []"
    and "newDate E (storage w K_END_TIME) = Some et"
    and "to_number E (storage w K_DURATION) = Some d"
    and "timeClip (et - d * 60 * 1000) = Some st"
  shows "saveLog E (h, w) =
     Inr (resetToStartState E
            (appendLogToFile E
               (object_literal
                  [(''type'', Some (JStr ''session'')),
                   (''sessionId'', storage w K_SESSION_ID),
                   (''start_time'', Some (JStr (toISOString E st))),
                   (''end_time'', Some (JStr (toISOString E et))),
                   (''duration'', storage w K_DURATION),
                   (''summary_text'', Some (JStr (summaryInput h)))])
               (h, w)))"
  using assms by (simp add: saveLog_def Let_def storage_get_def)



end
